theory Spec2Isabelle
  imports Main
begin

section \<open>JavaScript values and strings\<close>

text \<open>
  The handlers compare and combine values that may be a number, \<^verbatim>\<open>null\<close>,
  \<^verbatim>\<open>undefined\<close>, a boolean or \<^verbatim>\<open>NaN\<close>. Numbers are the integers that an
  INTEGER column or a day count holds. Strings are ASCII.
\<close>

datatype jsval = Undefined | Null | NaN | Num int | Bool bool

text \<open>ToBoolean.\<close>

fun truthy :: "jsval \<Rightarrow> bool" where
  "truthy Undefined = False"
| "truthy Null = False"
| "truthy NaN = False"
| "truthy (Num n) = (n \<noteq> 0)"
| "truthy (Bool b) = b"

text \<open>ToNumber; \<open>None\<close> stands for \<^verbatim>\<open>NaN\<close>.\<close>

fun toNumber :: "jsval \<Rightarrow> int option" where
  "toNumber Undefined = None"
| "toNumber Null = Some 0"
| "toNumber NaN = None"
| "toNumber (Num n) = Some n"
| "toNumber (Bool b) = Some (if b then 1 else 0)"

text \<open>\<^verbatim>\<open>a < b\<close>, \<^verbatim>\<open>a <= b\<close> and \<^verbatim>\<open>a - b\<close> on such values: a comparison with
  \<^verbatim>\<open>NaN\<close> is false, a difference with \<^verbatim>\<open>NaN\<close> is \<^verbatim>\<open>NaN\<close>.\<close>

definition js_lt :: "jsval \<Rightarrow> jsval \<Rightarrow> bool" where
  "js_lt a b = (case (toNumber a, toNumber b) of (Some x, Some y) \<Rightarrow> x < y | _ \<Rightarrow> False)"

definition js_le :: "jsval \<Rightarrow> jsval \<Rightarrow> bool" where
  "js_le a b = (case (toNumber a, toNumber b) of (Some x, Some y) \<Rightarrow> x \<le> y | _ \<Rightarrow> False)"

definition js_minus :: "jsval \<Rightarrow> jsval \<Rightarrow> jsval" where
  "js_minus a b = (case (toNumber a, toNumber b) of (Some x, Some y) \<Rightarrow> Num (x - y) | _ \<Rightarrow> NaN)"

text \<open>\<^verbatim>\<open>a || b\<close>.\<close>

definition js_or :: "jsval \<Rightarrow> jsval \<Rightarrow> jsval" where
  "js_or a b = (if truthy a then a else b)"

definition upperTable :: "(char \<times> char) list" where
  "upperTable = zip ''abcdefghijklmnopqrstuvwxyz'' ''ABCDEFGHIJKLMNOPQRSTUVWXYZ''"

definition lowerTable :: "(char \<times> char) list" where
  "lowerTable = zip ''ABCDEFGHIJKLMNOPQRSTUVWXYZ'' ''abcdefghijklmnopqrstuvwxyz''"

definition toUpperCase :: "string \<Rightarrow> string" where
  "toUpperCase s = map (\<lambda>c. case map_of upperTable c of Some u \<Rightarrow> u | None \<Rightarrow> c) s"

definition toLowerCase :: "string \<Rightarrow> string" where
  "toLowerCase s = map (\<lambda>c. case map_of lowerTable c of Some l \<Rightarrow> l | None \<Rightarrow> c) s"

text \<open>The ASCII white space that \<^verbatim>\<open>String.prototype.trim\<close> removes: space, tab, line
  feed, vertical tab, form feed, carriage return.\<close>

definition isWhiteSpace :: "char \<Rightarrow> bool" where
  "isWhiteSpace c = (c \<in> set [CHR 0x20, CHR 0x09, CHR 0x0A, CHR 0x0B, CHR 0x0C, CHR 0x0D])"

definition trim :: "string \<Rightarrow> string" where
  "trim s = rev (dropWhile isWhiteSpace (rev (dropWhile isWhiteSpace s)))"

section \<open>Validation functions\<close>

text \<open>A missing argument (\<^verbatim>\<open>undefined\<close>) is \<open>None\<close>; \<^verbatim>\<open>(type || '')\<close> turns it and
  the empty string into the empty string.\<close>

definition orEmpty :: "string option \<Rightarrow> string" where
  "orEmpty t = (case t of None \<Rightarrow> '''' | Some s \<Rightarrow> s)"

definition validateLeaveType :: "string option \<Rightarrow> bool" where
  "validateLeaveType t =
     (let normalizedType = trim (toUpperCase (orEmpty t))
      in normalizedType \<in> set [''CL'', ''RH'', ''EL''])"

definition normalizeLeaveType :: "string option \<Rightarrow> string option" where
  "normalizeLeaveType t =
     (let normalizedType = trim (toUpperCase (orEmpty t))
      in if normalizedType \<in> set [''CL'', ''RH'', ''EL''] then Some normalizedType else None)"

text \<open>\<^verbatim>\<open>parseInt\<close> of a value that is not a string goes through its decimal rendering:
  an integer comes back as itself, the renderings of booleans and \<^verbatim>\<open>NaN\<close> have no
  leading digit.\<close>

fun parseInt :: "jsval \<Rightarrow> int option" where
  "parseInt (Num n) = Some n"
| "parseInt _ = None"

definition normalizeLeaveBalance :: "jsval \<Rightarrow> int" where
  "normalizeLeaveBalance balance =
     (if balance = Null \<or> balance = Undefined then 0
      else case parseInt balance of None \<Rightarrow> 0 | Some numBalance \<Rightarrow> max 0 numBalance)"

text \<open>A date string names a calendar day, held as its day number. \<open>newDate\<close> is the
  time value of \<^verbatim>\<open>new Date(s)\<close> for such a string, in milliseconds: the day's
  midnight, where \<^verbatim>\<open>setHours(0, 0, 0, 0)\<close> leaves it. The offset between UTC and local
  midnight and changes of the clock between two dates are not modelled. \<open>today\<close> is the
  day number of the current day.\<close>

definition msPerDay :: int where
  "msPerDay = 1000 * 60 * 60 * 24"

definition newDate :: "int \<Rightarrow> int" where
  "newDate date = date * msPerDay"

definition validateDateRange :: "int \<Rightarrow> int \<Rightarrow> int \<Rightarrow> bool" where
  "validateDateRange today startDate endDate =
     (let start = newDate startDate; endd = newDate endDate; today0 = newDate today
      in start \<ge> today0 \<and> endd \<ge> start)"

definition calculateLeaveDays :: "int \<Rightarrow> int \<Rightarrow> int" where
  "calculateLeaveDays startDate endDate =
     (let start = newDate startDate; endd = newDate endDate;
          days = (endd - start) div msPerDay + 1
      in max 1 days)"

text \<open>\<^verbatim>\<open>maxDays[leaveType]\<close>: a key that is not in the object literal reads as
  \<^verbatim>\<open>undefined\<close>.\<close>

definition maxDays :: "string \<Rightarrow> jsval" where
  "maxDays leaveType =
     (if leaveType = ''CL'' then Num 30
      else if leaveType = ''RH'' then Num 15
      else if leaveType = ''EL'' then Num 60
      else Undefined)"

text \<open>The last line of the source is \<^verbatim>\<open>return days <= maxDays[leaveType] || 30\<close>: the
  comparison binds tighter than \<^verbatim>\<open>||\<close>, so the result is \<^verbatim>\<open>true\<close> or the number 30.\<close>

definition validateLeaveDays :: "int \<Rightarrow> string \<Rightarrow> jsval" where
  "validateLeaveDays days leaveType =
     (if days < 1 then Bool False
      else js_or (Bool (js_le (Num days) (maxDays leaveType))) (Num 30))"

definition validateEmployeeId :: "string option \<Rightarrow> bool" where
  "validateEmployeeId employeeId =
     (case employeeId of None \<Rightarrow> False | Some s \<Rightarrow> s \<noteq> '''' \<and> trim s \<noteq> '''')"

definition sanitizeInput :: "string \<Rightarrow> string" where
  "sanitizeInput input = filter (\<lambda>c. c \<noteq> CHR ''<'' \<and> c \<noteq> CHR ''>'') (trim input)"

section \<open>Overlap test of the leave-creation query\<close>

text \<open>The WHERE clause of the overlap query, for a stored range \<open>[start_date, end_date]\<close>
  and the requested range \<open>[$2, $3]\<close>.\<close>

definition overlapClause :: "int \<Rightarrow> int \<Rightarrow> int \<Rightarrow> int \<Rightarrow> bool" where
  "overlapClause start_date end_date p2 p3 =
     ((start_date \<le> p2 \<and> end_date \<ge> p2) \<or>
      (start_date \<le> p3 \<and> end_date \<ge> p3) \<or>
      (start_date \<ge> p2 \<and> end_date \<le> p3))"

text \<open>The inclusive-interval test of the specification.\<close>

definition inclusiveOverlap :: "int \<Rightarrow> int \<Rightarrow> int \<Rightarrow> int \<Rightarrow> bool" where
  "inclusiveOverlap s1 e1 s2 e2 = (s1 \<le> e2 \<and> s2 \<le> e1)"

section \<open>The relational store\<close>

text \<open>
  The tables as \<^verbatim>\<open>createTables\<close> declares them, with the columns the leave and balance
  logic reads or writes. A balance column is \<^verbatim>\<open>INTEGER DEFAULT ...\<close> without
  \<^verbatim>\<open>NOT NULL\<close>, so it holds a 32-bit integer or NULL. Rows are kept in table order.
\<close>

datatype leave_status = PENDING | APPROVED | REJECTED

record employee =
  employee_id :: string
  full_name :: string
  cl_balance :: "int option"
  rh_balance :: "int option"
  el_balance :: "int option"

record leave =
  leave_id :: nat
  leave_employee_id :: string
  leave_type :: string
  start_date :: int
  end_date :: int
  days :: int
  reason :: string
  status :: leave_status
  approved_by :: "string option"
  document_path :: "string option"

text \<open>\<open>leaves_id_seq\<close> is the sequence behind \<^verbatim>\<open>id SERIAL\<close>; \<open>files\<close> are the paths
  that exist in the upload directory.\<close>

record db =
  employees :: "employee list"
  leaves :: "leave list"
  leaves_id_seq :: nat
  files :: "string list"

text \<open>
  The outcomes of a handler that are not a success, by the kind the specification gives
  them: 400 with a validation message, 404, 400 for an insufficient balance (leave type
  as supplied, available balance, requested days), 400 for an overlap, 400 for a leave
  that is not pending on a status change, 400 for a leave that is not pending on a
  delete, and 500 for anything the store throws.
\<close>

datatype error =
    ValidationError string
  | NotFound string
  | InsufficientBalance string jsval int
  | OverlapConflict
  | InvalidTransition
  | InvalidState
  | InternalError

text \<open>What the driver returns for an INTEGER column.\<close>

definition column :: "int option \<Rightarrow> jsval" where
  "column v = (case v of None \<Rightarrow> Null | Some n \<Rightarrow> Num n)"

text \<open>\<^verbatim>\<open>row[balanceField]\<close> for a key built as \<^verbatim>\<open>`${...}_balance`\<close>: the three balance
  columns are the only columns whose name ends that way, every other such key reads as
  \<^verbatim>\<open>undefined\<close>.\<close>

definition balanceOf :: "employee \<Rightarrow> string \<Rightarrow> jsval" where
  "balanceOf row balanceField =
     (if balanceField = ''cl_balance'' then column (cl_balance row)
      else if balanceField = ''rh_balance'' then column (rh_balance row)
      else if balanceField = ''el_balance'' then column (el_balance row)
      else Undefined)"

text \<open>Range of an INTEGER column; a value outside it makes the statement fail.\<close>

definition int4 :: "int \<Rightarrow> bool" where
  "int4 n = (- 2147483648 \<le> n \<and> n \<le> 2147483647)"

text \<open>Storing into \<^verbatim>\<open>VARCHAR(n)\<close>: a longer string is an error unless the excess is all
  spaces, which are cut off.\<close>

definition varchar :: "nat \<Rightarrow> string \<Rightarrow> string option" where
  "varchar n s =
     (if length s \<le> n then Some s
      else if list_all (\<lambda>c. c = CHR 0x20) (drop n s) then Some (take n s)
      else None)"

text \<open>\<^verbatim>\<open>LOWER(employee_id) = LOWER($1)\<close>.\<close>

definition lowerEq :: "string \<Rightarrow> string \<Rightarrow> bool" where
  "lowerEq a b = (toLowerCase a = toLowerCase b)"

section \<open>Balance normalizer\<close>

text \<open>
  The calls \<^verbatim>\<open>normalizeEmployeeBalances\<close> makes on the store, in order. A fault
  pattern says which of them throw. A connection runs statements against the
  transaction's own copy of the tables once BEGIN has run; COMMIT publishes the copy,
  ROLLBACK drops it.
\<close>

datatype store_call = Connect | Begin | SelectBalances | UpdateBalances | Commit

type_synonym faults = "store_call \<Rightarrow> bool"

definition no_faults :: faults where
  "no_faults = (\<lambda>_. False)"

record session =
  committed :: db
  uncommitted :: "db option"

definition connect :: "db \<Rightarrow> session" where
  "connect d = \<lparr>committed = d, uncommitted = None\<rparr>"

definition queryBegin :: "session \<Rightarrow> session" where
  "queryBegin s = s\<lparr>uncommitted := Some (committed s)\<rparr>"

definition queryCommit :: "session \<Rightarrow> session" where
  "queryCommit s =
     (case uncommitted s of None \<Rightarrow> s | Some w \<Rightarrow> \<lparr>committed = w, uncommitted = None\<rparr>)"

definition queryRollback :: "session \<Rightarrow> session" where
  "queryRollback s = s\<lparr>uncommitted := None\<rparr>"

definition visible :: "session \<Rightarrow> db" where
  "visible s = (case uncommitted s of None \<Rightarrow> committed s | Some w \<Rightarrow> w)"

definition execute :: "(db \<Rightarrow> db) \<Rightarrow> session \<Rightarrow> session" where
  "execute f s =
     (case uncommitted s of
        None \<Rightarrow> s\<lparr>committed := f (committed s)\<rparr>
      | Some w \<Rightarrow> s\<lparr>uncommitted := Some (f w)\<rparr>)"

record balances =
  cl :: int
  rh :: int
  el :: int

text \<open>\<^verbatim>\<open>UPDATE employees SET cl_balance = $1, rh_balance = $2, el_balance = $3
  WHERE employee_id = $4\<close>: the SET list on one row, and the statement on the table.\<close>

definition setBalances :: "balances \<Rightarrow> employee \<Rightarrow> employee" where
  "setBalances b e =
     e\<lparr>cl_balance := Some (cl b), rh_balance := Some (rh b), el_balance := Some (el b)\<rparr>"

definition updateBalances :: "balances \<Rightarrow> string \<Rightarrow> db \<Rightarrow> db" where
  "updateBalances b employeeId d =
     d\<lparr>employees := map (\<lambda>e. if employee_id e = employeeId then setBalances b e else e)
                          (employees d)\<rparr>"

text \<open>The body of the \<^verbatim>\<open>try\<close> block: the result, and the session as the block leaves
  it.\<close>

definition normalizeTry :: "faults \<Rightarrow> string \<Rightarrow> session \<Rightarrow> (error + balances) \<times> session" where
  "normalizeTry faults employeeId s0 =
     (if faults Begin then (Inl InternalError, s0)
      else let s1 = queryBegin s0 in
        if faults SelectBalances then (Inl InternalError, s1)
        else case filter (\<lambda>e. employee_id e = employeeId) (employees (visible s1)) of
          [] \<Rightarrow> (Inl (NotFound ''Employee not found''), s1)
        | employee # _ \<Rightarrow>
            let normalizedBalances =
                  \<lparr>cl = min 30 (normalizeLeaveBalance (column (cl_balance employee))),
                   rh = min 15 (normalizeLeaveBalance (column (rh_balance employee))),
                   el = min 18 (normalizeLeaveBalance (column (el_balance employee)))\<rparr>
            in if faults UpdateBalances then (Inl InternalError, s1)
               else let s2 = execute (updateBalances normalizedBalances employeeId) s1 in
                 if faults Commit then (Inl InternalError, s2)
                 else (Inr normalizedBalances, queryCommit s2))"

text \<open>\<^verbatim>\<open>pool.connect()\<close> is outside the \<^verbatim>\<open>try\<close>; the \<^verbatim>\<open>catch\<close> block rolls back and
  rethrows. The result comes with the tables as the store holds them afterwards.\<close>

definition normalizeEmployeeBalances :: "faults \<Rightarrow> string \<Rightarrow> db \<Rightarrow> (error + balances) \<times> db" where
  "normalizeEmployeeBalances faults employeeId d =
     (if faults Connect then (Inl InternalError, d)
      else case normalizeTry faults employeeId (connect d) of
          (Inr normalizedBalances, s) \<Rightarrow> (Inr normalizedBalances, committed s)
        | (Inl err, s) \<Rightarrow> (Inl err, committed (queryRollback s)))"

section \<open>Integrity sweep\<close>

text \<open>The WHERE clauses of the two scans. A comparison with NULL is not true.\<close>

definition sqlLess :: "int option \<Rightarrow> int \<Rightarrow> bool" where
  "sqlLess v n = (case v of None \<Rightarrow> False | Some x \<Rightarrow> x < n)"

definition sqlGreater :: "int option \<Rightarrow> int \<Rightarrow> bool" where
  "sqlGreater v n = (case v of None \<Rightarrow> False | Some x \<Rightarrow> x > n)"

definition negativeBalance :: "employee \<Rightarrow> bool" where
  "negativeBalance e =
     (sqlLess (cl_balance e) 0 \<or> sqlLess (rh_balance e) 0 \<or> sqlLess (el_balance e) 0)"

definition highBalance :: "employee \<Rightarrow> bool" where
  "highBalance e =
     (sqlGreater (cl_balance e) 30 \<or> sqlGreater (rh_balance e) 15 \<or> sqlGreater (el_balance e) 30)"

text \<open>The \<^verbatim>\<open>for ... of\<close> loops: the first call that throws ends the loop.\<close>

fun normalizeRows :: "employee list \<Rightarrow> db \<Rightarrow> (error + unit) \<times> db" where
  "normalizeRows [] d = (Inr (), d)"
| "normalizeRows (employee # rows) d =
     (case normalizeEmployeeBalances no_faults (employee_id employee) d of
        (Inl err, d') \<Rightarrow> (Inl err, d')
      | (Inr _, d') \<Rightarrow> normalizeRows rows d')"

text \<open>The sweep on a store whose calls succeed. An error of a normalization is caught
  and logged, and the sweep ends there.\<close>

definition checkDataIntegrity :: "db \<Rightarrow> db" where
  "checkDataIntegrity d =
     (let negativeBalances = filter negativeBalance (employees d) in
      case (if negativeBalances \<noteq> [] then normalizeRows negativeBalances d else (Inr (), d)) of
        (Inl err, d1) \<Rightarrow> d1
      | (Inr _, d1) \<Rightarrow>
          let highBalances = filter highBalance (employees d1) in
          case (if highBalances \<noteq> [] then normalizeRows highBalances d1 else (Inr (), d1)) of
            (_, d2) \<Rightarrow> d2)"

section \<open>Leave lifecycle\<close>

subsection \<open>Create\<close>

text \<open>The fields of the request body (absent, or a string; a date is absent when it is
  missing or empty) and the path of the uploaded document, if any.\<close>

record leave_request =
  req_employee_id :: "string option"
  req_leave_type :: "string option"
  req_start_date :: "int option"
  req_end_date :: "int option"
  req_reason :: "string option"
  req_file :: "string option"

text \<open>What the handler holds once the balance check has passed.\<close>

record checked_request =
  chk_employee_id :: string
  chk_leave_type :: string
  chk_start_date :: int
  chk_end_date :: int
  chk_reason :: string
  chk_days :: int

text \<open>The handler from the validation of the body to the balance check. \<open>today\<close> is the
  current day.\<close>

definition createLeaveChecks :: "int \<Rightarrow> leave_request \<Rightarrow> db \<Rightarrow> error + checked_request" where
  "createLeaveChecks today req d =
     (if \<not> validateEmployeeId (req_employee_id req) then
        Inl (ValidationError ''Valid employee ID is required'')
      else if \<not> validateLeaveType (req_leave_type req) then
        Inl (ValidationError ''Valid leave type is required (CL, RH, EL)'')
      else case (req_start_date req, req_end_date req) of
          (Some startDate, Some endDate) \<Rightarrow>
            if \<not> validateDateRange today startDate endDate then
              Inl (ValidationError ''Invalid date range'')
            else if orEmpty (req_reason req) = '''' \<or> trim (orEmpty (req_reason req)) = '''' then
              Inl (ValidationError ''Reason is required'')
            else
              let employee_id_arg = orEmpty (req_employee_id req);
                  leave_type_arg = orEmpty (req_leave_type req)
              in case filter (\<lambda>e. lowerEq (employee_id e) (trim employee_id_arg)) (employees d) of
                  [] \<Rightarrow> Inl (NotFound ''Employee not found'')
                | employee # _ \<Rightarrow>
                    let leaveDays = calculateLeaveDays startDate endDate in
                    if \<not> truthy (validateLeaveDays leaveDays leave_type_arg) then
                      Inl (ValidationError ''Leave days exceed maximum limit'')
                    else
                      let balanceField = toLowerCase leave_type_arg @ ''_balance'' in
                      if js_lt (balanceOf employee balanceField) (Num leaveDays) then
                        Inl (InsufficientBalance leave_type_arg (balanceOf employee balanceField) leaveDays)
                      else
                        Inr \<lparr>chk_employee_id = employee_id_arg, chk_leave_type = leave_type_arg,
                             chk_start_date = startDate, chk_end_date = endDate,
                             chk_reason = orEmpty (req_reason req), chk_days = leaveDays\<rparr>
        | _ \<Rightarrow> Inl (ValidationError ''Start date and end date are required''))"

text \<open>The rows the overlap query returns.\<close>

definition overlappingLeaves :: "string \<Rightarrow> int \<Rightarrow> int \<Rightarrow> db \<Rightarrow> leave list" where
  "overlappingLeaves p1 p2 p3 d =
     filter (\<lambda>l. leave_employee_id l = p1 \<and> status l \<noteq> REJECTED \<and>
                 overlapClause (start_date l) (end_date l) p2 p3) (leaves d)"

text \<open>
  The INSERT. \<^verbatim>\<open>days\<close> must fit INTEGER, and \<^verbatim>\<open>employee_id\<close> and \<^verbatim>\<open>document_path\<close>
  their VARCHAR: otherwise the statement fails and nothing has changed. Then the row
  takes the next value of the sequence and the column defaults (status PENDING, no
  approver); \<^verbatim>\<open>leave_type\<close> must be present and pass its CHECK, and \<^verbatim>\<open>employee_id\<close>
  must be the identifier of an employee row (FOREIGN KEY). A statement that fails on
  one of these constraints leaves the sequence advanced.
\<close>

definition insertLeave ::
  "string \<Rightarrow> string option \<Rightarrow> int \<Rightarrow> int \<Rightarrow> int \<Rightarrow> string \<Rightarrow> string option \<Rightarrow> db \<Rightarrow> (error + leave) \<times> db" where
  "insertLeave p1 p2 p3 p4 p5 p6 p7 d =
     (if \<not> int4 p5 then (Inl InternalError, d)
      else case (varchar 50 p1, map_option (varchar 255) p7) of
          (Some eid, doc) \<Rightarrow>
            if doc = Some None then (Inl InternalError, d)
            else
              let d' = d\<lparr>leaves_id_seq := Suc (leaves_id_seq d)\<rparr> in
              (case p2 of
                 None \<Rightarrow> (Inl InternalError, d')
               | Some ltype \<Rightarrow>
                   if ltype \<notin> set [''CL'', ''RH'', ''EL''] then (Inl InternalError, d')
                   else if \<not> list_ex (\<lambda>e. employee_id e = eid) (employees d) then
                     (Inl InternalError, d')
                   else
                     let row = \<lparr>leave_id = leaves_id_seq d, leave_employee_id = eid,
                                leave_type = ltype, start_date = p3, end_date = p4, days = p5,
                                reason = p6, status = PENDING, approved_by = None,
                                document_path = (case doc of Some path \<Rightarrow> path | None \<Rightarrow> None)\<rparr>
                     in (Inr row, d'\<lparr>leaves := leaves d @ [row]\<rparr>))
        | (None, _) \<Rightarrow> (Inl InternalError, d))"

text \<open>\<^verbatim>\<open>req.file.path.replace(/\\/g, '/')\<close>.\<close>

definition forwardSlashes :: "string \<Rightarrow> string" where
  "forwardSlashes path = map (\<lambda>c. if c = CHR 0x5C then CHR 0x2F else c) path"

text \<open>The whole handler: the checks, the overlap query and the INSERT.\<close>

definition createLeave :: "int \<Rightarrow> leave_request \<Rightarrow> db \<Rightarrow> (error + leave) \<times> db" where
  "createLeave today req d =
     (case createLeaveChecks today req d of
        Inl err \<Rightarrow> (Inl err, d)
      | Inr c \<Rightarrow>
          if overlappingLeaves (trim (chk_employee_id c)) (chk_start_date c) (chk_end_date c) d \<noteq> []
          then (Inl OverlapConflict, d)
          else insertLeave (trim (chk_employee_id c)) (normalizeLeaveType (Some (chk_leave_type c)))
                 (chk_start_date c) (chk_end_date c) (chk_days c)
                 (sanitizeInput (trim (chk_reason c))) (map_option forwardSlashes (req_file req)) d)"

subsection \<open>SetStatus\<close>

text \<open>
  The text the handler splices into its SELECT after \<^verbatim>\<open>e.\<close>: the three balance
  columns for an approval, nothing otherwise. With nothing spliced in the statement
  reads \<^verbatim>\<open>SELECT l.*, e. FROM leaves l JOIN ...\<close>, which the store rejects as a syntax
  error.
\<close>

definition statusSelectColumns :: "string \<Rightarrow> string" where
  "statusSelectColumns status_arg =
     (if status_arg = ''APPROVED'' then ''cl_balance, rh_balance, el_balance'' else '''')"

text \<open>The SELECT: each leave row with the given id, joined with the employee rows of
  the same identifier.\<close>

definition selectLeaveWithBalances :: "string \<Rightarrow> nat \<Rightarrow> db \<Rightarrow> error + (leave \<times> employee) list" where
  "selectLeaveWithBalances cols leaveId d =
     (if cols = '''' then Inl InternalError
      else Inr (concat (map (\<lambda>l. map (\<lambda>e. (l, e))
                                   (filter (\<lambda>e. leave_employee_id l = employee_id e) (employees d)))
                            (filter (\<lambda>l. leave_id l = leaveId) (leaves d)))))"

definition statusOfString :: "string \<Rightarrow> leave_status option" where
  "statusOfString s =
     (if s = ''PENDING'' then Some PENDING
      else if s = ''APPROVED'' then Some APPROVED
      else if s = ''REJECTED'' then Some REJECTED
      else None)"

text \<open>\<^verbatim>\<open>UPDATE leaves SET status = $1, approved_by = $2, approved_at = CURRENT_TIMESTAMP
  WHERE id = $3\<close>; the status must pass its CHECK and the approver fit VARCHAR(50).\<close>

definition updateLeaveStatus :: "string \<Rightarrow> string \<Rightarrow> nat \<Rightarrow> db \<Rightarrow> error + db" where
  "updateLeaveStatus p1 p2 p3 d =
     (case (statusOfString p1, varchar 50 p2) of
        (Some st, Some approver) \<Rightarrow>
          Inr (d\<lparr>leaves := map (\<lambda>l. if leave_id l = p3
                                     then l\<lparr>status := st, approved_by := Some approver\<rparr>
                                     else l) (leaves d)\<rparr>)
      | _ \<Rightarrow> Inl InternalError)"

text \<open>\<^verbatim>\<open>UPDATE employees SET ${balanceField} = $1 WHERE employee_id = $2\<close>: the column
  must exist and the value be a number that fits INTEGER. \<open>setBalance\<close> is the SET clause
  on one row.\<close>

definition setBalance :: "string \<Rightarrow> int \<Rightarrow> employee \<Rightarrow> employee" where
  "setBalance balanceField v e =
     (if balanceField = ''cl_balance'' then e\<lparr>cl_balance := Some v\<rparr>
      else if balanceField = ''rh_balance'' then e\<lparr>rh_balance := Some v\<rparr>
      else if balanceField = ''el_balance'' then e\<lparr>el_balance := Some v\<rparr>
      else e)"

definition updateEmployeeBalance :: "string \<Rightarrow> jsval \<Rightarrow> string \<Rightarrow> db \<Rightarrow> error + db" where
  "updateEmployeeBalance balanceField p1 p2 d =
     (case p1 of
        Num v \<Rightarrow>
          if \<not> int4 v then Inl InternalError
          else if balanceField \<notin> set [''cl_balance'', ''rh_balance'', ''el_balance''] then
            Inl InternalError
          else
            Inr (d\<lparr>employees := map (\<lambda>e. if employee_id e = p2 then setBalance balanceField v e else e)
                                    (employees d)\<rparr>)
      | _ \<Rightarrow> Inl InternalError)"

text \<open>The handler. The two UPDATEs are separate statements: when the second fails the
  first has already been stored.\<close>

definition setStatus :: "nat \<Rightarrow> string \<Rightarrow> string option \<Rightarrow> db \<Rightarrow> (error + unit) \<times> db" where
  "setStatus leaveId status_arg approved_by_arg d =
     (if status_arg \<notin> set [''APPROVED'', ''REJECTED''] then
        (Inl (ValidationError ''Status must be APPROVED or REJECTED''), d)
      else if orEmpty approved_by_arg = '''' then
        (Inl (ValidationError ''Approver ID is required''), d)
      else case selectLeaveWithBalances (statusSelectColumns status_arg) leaveId d of
          Inl err \<Rightarrow> (Inl err, d)
        | Inr [] \<Rightarrow> (Inl (NotFound ''Leave not found''), d)
        | Inr ((leave, balancesRow) # _) \<Rightarrow>
            if status leave \<noteq> PENDING then (Inl InvalidTransition, d)
            else case updateLeaveStatus status_arg (orEmpty approved_by_arg) leaveId d of
                Inl err \<Rightarrow> (Inl err, d)
              | Inr d1 \<Rightarrow>
                  if status_arg = ''APPROVED'' then
                    let balanceField = toLowerCase (leave_type leave) @ ''_balance'';
                        newBalance = js_minus (balanceOf balancesRow balanceField) (Num (days leave))
                    in case updateEmployeeBalance balanceField newBalance (leave_employee_id leave) d1 of
                        Inl err \<Rightarrow> (Inl err, d1)
                      | Inr d2 \<Rightarrow> (Inr (), d2)
                  else (Inr (), d1))"

subsection \<open>Delete\<close>

definition deleteLeave :: "nat \<Rightarrow> db \<Rightarrow> (error + unit) \<times> db" where
  "deleteLeave leaveId d =
     (case filter (\<lambda>l. leave_id l = leaveId) (leaves d) of
        [] \<Rightarrow> (Inl (NotFound ''Leave not found''), d)
      | leave # _ \<Rightarrow>
          if status leave \<noteq> PENDING then (Inl InvalidState, d)
          else
            let d1 = (case document_path leave of
                        None \<Rightarrow> d
                      | Some path \<Rightarrow>
                          if path \<noteq> '''' \<and> path \<in> set (files d)
                          then d\<lparr>files := removeAll path (files d)\<rparr> else d)
            in (Inr (), d1\<lparr>leaves := filter (\<lambda>l. leave_id l \<noteq> leaveId) (leaves d1)\<rparr>))"

section \<open>Ranges of stored balances\<close>

text \<open>A stored balance within \<open>[lo, hi]\<close>; NULL is in no range.\<close>

definition inRange :: "int \<Rightarrow> int \<Rightarrow> int option \<Rightarrow> bool" where
  "inRange lo hi v = (case v of None \<Rightarrow> False | Some x \<Rightarrow> lo \<le> x \<and> x \<le> hi)"

text \<open>All three balances within the caps of the normalizer: 30, 15 and 18.\<close>

definition withinCaps :: "employee \<Rightarrow> bool" where
  "withinCaps e =
     (inRange 0 30 (cl_balance e) \<and> inRange 0 15 (rh_balance e) \<and> inRange 0 18 (el_balance e))"

text \<open>Every balance NULL or within what the two scans of the sweep let pass: 0 to 30,
  0 to 15 and 0 to 30.\<close>

definition withinThresholds :: "employee \<Rightarrow> bool" where
  "withinThresholds e =
     ((cl_balance e = None \<or> inRange 0 30 (cl_balance e)) \<and>
      (rh_balance e = None \<or> inRange 0 15 (rh_balance e)) \<and>
      (el_balance e = None \<or> inRange 0 30 (el_balance e)))"

text \<open>A row with each balance replaced by \<open>min(cap, normalizeLeaveBalance(stored))\<close>,
  caps 30, 15 and 18: what the normalizer writes for the row it has read.\<close>

definition clamped :: "employee \<Rightarrow> employee" where
  "clamped e =
     e\<lparr>cl_balance := Some (min 30 (normalizeLeaveBalance (column (cl_balance e)))),
       rh_balance := Some (min 15 (normalizeLeaveBalance (column (rh_balance e)))),
       el_balance := Some (min 18 (normalizeLeaveBalance (column (el_balance e))))\<rparr>"

section \<open>Example data\<close>

definition exampleEmployee :: employee where
  "exampleEmployee =
     \<lparr>employee_id = ''EMP001'', full_name = ''Asha Rao'',
      cl_balance = Some 10, rh_balance = Some 5, el_balance = Some 25\<rparr>"

definition exampleLeave :: leave where
  "exampleLeave =
     \<lparr>leave_id = 1, leave_employee_id = ''EMP001'', leave_type = ''CL'',
      start_date = 10, end_date = 12, days = 3, reason = ''family function'',
      status = PENDING, approved_by = None, document_path = None\<rparr>"

definition exampleDb :: db where
  "exampleDb = \<lparr>employees = [exampleEmployee], leaves = [exampleLeave], leaves_id_seq = 2, files = []\<rparr>"

definition exampleRequest :: "string \<Rightarrow> string \<Rightarrow> int \<Rightarrow> int \<Rightarrow> leave_request" where
  "exampleRequest employeeId leaveType startDate endDate =
     \<lparr>req_employee_id = Some employeeId, req_leave_type = Some leaveType,
      req_start_date = Some startDate, req_end_date = Some endDate,
      req_reason = Some ''family function'', req_file = None\<rparr>"

definition exampleSweepDb :: db where
  "exampleSweepDb =
     \<lparr>employees =
        [exampleEmployee,
         \<lparr>employee_id = ''EMP002'', full_name = ''Bina Das'',
          cl_balance = Some (- 5), rh_balance = Some 5, el_balance = Some 10\<rparr>,
         \<lparr>employee_id = ''EMP003'', full_name = ''Chetan Lal'',
          cl_balance = Some 12, rh_balance = Some 5, el_balance = Some 50\<rparr>],
      leaves = [exampleLeave], leaves_id_seq = 2, files = []\<rparr>"

section \<open>Properties\<close>

subsection \<open>Lists and strings\<close>

lemma filter_map_same:
  assumes "\<And>x. P (f x) = P x"
  shows "filter P (map f xs) = map f (filter P xs)"
  by (induction xs) (simp_all add: assms)

lemma map_twice_same:
  assumes "\<And>x. f (f x) = f x"
  shows "map f (map f xs) = map f xs"
  by (induction xs) (simp_all add: assms)

lemma filter_Cons_mem:
  assumes "filter P xs = y # ys"
  shows "y \<in> set xs \<and> P y"
proof -
  have "y \<in> set (filter P xs)" by (simp add: assms)
  then show ?thesis by simp
qed

lemma find_filter_hd:
  "filter P xs = y # ys \<Longrightarrow> find P xs = Some y"
proof (induction xs)
  case Nil
  then show ?case by simp
next
  case (Cons a xs)
  then show ?case by (cases "P a") simp_all
qed

subsection \<open>Leave validator\<close>

lemma normalizeLeaveType_orEmpty:
  "normalizeLeaveType (Some (orEmpty t)) = normalizeLeaveType t"
  by (simp add: normalizeLeaveType_def orEmpty_def split: option.splits)

lemma normalizeLeaveType_Some:
  "normalizeLeaveType t = Some x \<Longrightarrow> x \<in> {''CL'', ''RH'', ''EL''}"
  by (auto simp: normalizeLeaveType_def Let_def split: if_splits)

lemma calculateLeaveDays_ge_1: "1 \<le> calculateLeaveDays s e"
  by (simp add: calculateLeaveDays_def Let_def)

lemma validateDateRange_le: "validateDateRange today s e \<Longrightarrow> s \<le> e"
  by (simp add: validateDateRange_def newDate_def msPerDay_def Let_def)

lemma validateLeaveDays_truthy: "1 \<le> n \<Longrightarrow> truthy (validateLeaveDays n t)"
  by (simp add: validateLeaveDays_def js_or_def)

lemma normalizeLeaveBalance_column:
  "normalizeLeaveBalance (column v) = (case v of None \<Rightarrow> 0 | Some n \<Rightarrow> max 0 n)"
  by (simp add: normalizeLeaveBalance_def column_def split: option.splits)

lemma normalizeLeaveBalance_nonneg: "0 \<le> normalizeLeaveBalance v"
  by (simp add: normalizeLeaveBalance_def split: option.splits)

text \<open>
  C5. The claim: \<open>validateLeaveDays(days, t)\<close> returns false when \<open>days\<close> is below 1 or
  above the cap of the type (CL 30, RH 15, EL 60), for instance at 31 days of CL. The
  code: at 31 days of CL the function returns the number 30, which a caller's
  \<^verbatim>\<open>if (!validateLeaveDays(...))\<close> takes as true, so the request is not refused.
\<close>

theorem validateLeaveDays_above_cap_not_false:
  "validateLeaveDays 31 ''CL'' = Num 30 \<and> truthy (validateLeaveDays 31 ''CL'') \<and>
   validateLeaveDays 31 ''CL'' \<noteq> Bool False"
  by (simp add: validateLeaveDays_def maxDays_def js_or_def js_le_def)

subsection \<open>Balance normalizer\<close>

lemma normalizeEmployeeBalances_unfold:
  "normalizeEmployeeBalances faults employeeId d =
     (if faults Connect \<or> faults Begin \<or> faults SelectBalances then (Inl InternalError, d)
      else case filter (\<lambda>e. employee_id e = employeeId) (employees d) of
          [] \<Rightarrow> (Inl (NotFound ''Employee not found''), d)
        | employee # _ \<Rightarrow>
            if faults UpdateBalances \<or> faults Commit then (Inl InternalError, d)
            else (Inr \<lparr>cl = min 30 (normalizeLeaveBalance (column (cl_balance employee))),
                       rh = min 15 (normalizeLeaveBalance (column (rh_balance employee))),
                       el = min 18 (normalizeLeaveBalance (column (el_balance employee)))\<rparr>,
                  updateBalances
                    \<lparr>cl = min 30 (normalizeLeaveBalance (column (cl_balance employee))),
                     rh = min 15 (normalizeLeaveBalance (column (rh_balance employee))),
                     el = min 18 (normalizeLeaveBalance (column (el_balance employee)))\<rparr>
                    employeeId d))"
  by (simp add: normalizeEmployeeBalances_def normalizeTry_def connect_def queryBegin_def
      queryCommit_def queryRollback_def visible_def execute_def Let_def split: list.splits)

lemma setBalances_simps [simp]:
  "employee_id (setBalances b e) = employee_id e"
  "cl_balance (setBalances b e) = Some (cl b)"
  "rh_balance (setBalances b e) = Some (rh b)"
  "el_balance (setBalances b e) = Some (el b)"
  "setBalances b (setBalances b e) = setBalances b e"
  by (simp_all add: setBalances_def)

lemma employees_updateBalances:
  "employees (updateBalances b i d) =
     map (\<lambda>e. if employee_id e = i then setBalances b e else e) (employees d)"
  by (simp add: updateBalances_def)

lemma filter_updateBalances:
  "filter (\<lambda>e. employee_id e = i) (employees (updateBalances b j d)) =
   map (\<lambda>e. if employee_id e = j then setBalances b e else e)
     (filter (\<lambda>e. employee_id e = i) (employees d))"
  unfolding employees_updateBalances by (rule filter_map_same) simp

lemma updateBalances_idem: "updateBalances b i (updateBalances b i d) = updateBalances b i d"
proof -
  have "map (\<lambda>e. if employee_id e = i then setBalances b e else e)
          (map (\<lambda>e. if employee_id e = i then setBalances b e else e) (employees d)) =
        map (\<lambda>e. if employee_id e = i then setBalances b e else e) (employees d)"
    by (rule map_twice_same) simp
  then show ?thesis by (simp add: updateBalances_def)
qed

lemma updateBalances_persisted:
  assumes "e' \<in> set (employees (updateBalances b i d))" and "employee_id e' = i"
  shows "cl_balance e' = Some (cl b) \<and> rh_balance e' = Some (rh b) \<and> el_balance e' = Some (el b)"
proof -
  from assms(1) obtain x where
    x: "e' = (if employee_id x = i then setBalances b x else x)"
    unfolding employees_updateBalances set_map by blast
  show ?thesis
  proof (cases "employee_id x = i")
    case True
    with x show ?thesis by simp
  next
    case False
    with x assms(2) show ?thesis by simp
  qed
qed

text \<open>
  C4. Whenever \<open>normalizeEmployeeBalances\<close> succeeds, each returned balance is
  \<open>min(cap, normalizeLeaveBalance(stored value))\<close> for the first row with that
  identifier, with caps 30 (CL), 15 (RH) and 18 (EL); it lies between 0 and its cap;
  every row with that identifier holds the returned values afterwards; and a second
  run on the resulting tables returns the same values and leaves the tables as they are.
\<close>

theorem normalize_in_caps_idempotent:
  assumes "normalizeEmployeeBalances faults employeeId d = (Inr b, d')"
  shows "(\<exists>e. find (\<lambda>e. employee_id e = employeeId) (employees d) = Some e \<and>
              cl b = min 30 (normalizeLeaveBalance (column (cl_balance e))) \<and>
              rh b = min 15 (normalizeLeaveBalance (column (rh_balance e))) \<and>
              el b = min 18 (normalizeLeaveBalance (column (el_balance e)))) \<and>
         0 \<le> cl b \<and> cl b \<le> 30 \<and> 0 \<le> rh b \<and> rh b \<le> 15 \<and> 0 \<le> el b \<and> el b \<le> 18 \<and>
         (\<exists>e' \<in> set (employees d'). employee_id e' = employeeId) \<and>
         (\<forall>e' \<in> set (employees d'). employee_id e' = employeeId \<longrightarrow>
              cl_balance e' = Some (cl b) \<and> rh_balance e' = Some (rh b) \<and> el_balance e' = Some (el b)) \<and>
         normalizeEmployeeBalances no_faults employeeId d' = (Inr b, d')"
proof -
  obtain e es where f: "filter (\<lambda>e. employee_id e = employeeId) (employees d) = e # es"
  proof (cases "filter (\<lambda>e. employee_id e = employeeId) (employees d)")
    case Nil
    with assms show ?thesis
      unfolding normalizeEmployeeBalances_unfold by (simp split: if_splits)
  next
    case (Cons e es)
    then show ?thesis by (rule that)
  qed
  from assms have bd: "\<lparr>cl = min 30 (normalizeLeaveBalance (column (cl_balance e))),
                 rh = min 15 (normalizeLeaveBalance (column (rh_balance e))),
                 el = min 18 (normalizeLeaveBalance (column (el_balance e)))\<rparr> = b \<and>
      updateBalances \<lparr>cl = min 30 (normalizeLeaveBalance (column (cl_balance e))),
                 rh = min 15 (normalizeLeaveBalance (column (rh_balance e))),
                 el = min 18 (normalizeLeaveBalance (column (el_balance e)))\<rparr> employeeId d = d'"
    unfolding normalizeEmployeeBalances_unfold f by (auto split: if_splits)
  then have b: "b = \<lparr>cl = min 30 (normalizeLeaveBalance (column (cl_balance e))),
                 rh = min 15 (normalizeLeaveBalance (column (rh_balance e))),
                 el = min 18 (normalizeLeaveBalance (column (el_balance e)))\<rparr>"
    by simp
  from bd have d': "d' = updateBalances b employeeId d"
    by (simp add: b)
  have stored: "find (\<lambda>e. employee_id e = employeeId) (employees d) = Some e"
    using f by (rule find_filter_hd)
  have range: "0 \<le> cl b \<and> cl b \<le> 30 \<and> 0 \<le> rh b \<and> rh b \<le> 15 \<and> 0 \<le> el b \<and> el b \<le> 18"
    by (simp add: b normalizeLeaveBalance_nonneg)
  have mem: "e \<in> set (employees d)" and eid: "employee_id e = employeeId"
    using filter_Cons_mem[OF f] by simp_all
  have "setBalances b e \<in> set (employees d')"
    unfolding d' employees_updateBalances set_map using mem eid by (intro image_eqI[where x=e]) simp_all
  then have ex: "\<exists>e' \<in> set (employees d'). employee_id e' = employeeId"
    using eid by (intro bexI[where x="setBalances b e"]) simp_all
  have persisted: "\<forall>e' \<in> set (employees d'). employee_id e' = employeeId \<longrightarrow>
              cl_balance e' = Some (cl b) \<and> rh_balance e' = Some (rh b) \<and> el_balance e' = Some (el b)"
    unfolding d' using updateBalances_persisted by blast
  have idem: "min 30 (normalizeLeaveBalance (column (Some (cl b)))) = cl b"
       "min 15 (normalizeLeaveBalance (column (Some (rh b)))) = rh b"
       "min 18 (normalizeLeaveBalance (column (Some (el b)))) = el b"
    using range by (simp_all add: normalizeLeaveBalance_column)
  have f': "filter (\<lambda>e. employee_id e = employeeId) (employees d') =
        setBalances b e # map (\<lambda>e. if employee_id e = employeeId then setBalances b e else e) es"
    unfolding d' filter_updateBalances f using eid by simp
  have eta: "\<lparr>cl = cl b, rh = rh b, el = el b\<rparr> = b"
    by (cases b) simp
  have again: "normalizeEmployeeBalances no_faults employeeId d' = (Inr b, d')"
    unfolding normalizeEmployeeBalances_unfold f'
    by (simp add: no_faults_def idem eta) (simp add: d' updateBalances_idem)
  from stored b range ex persisted again show ?thesis by simp
qed

theorem normalize_in_caps_idempotent_witness:
  "normalizeEmployeeBalances no_faults ''EMP001'' exampleDb =
     (Inr \<lparr>cl = 10, rh = 5, el = 18\<rparr>,
      exampleDb\<lparr>employees := [exampleEmployee\<lparr>el_balance := Some 18\<rparr>]\<rparr>) \<and>
   normalizeEmployeeBalances no_faults ''EMP001''
     (exampleDb\<lparr>employees := [exampleEmployee\<lparr>el_balance := Some 18\<rparr>]\<rparr>) =
     (Inr \<lparr>cl = 10, rh = 5, el = 18\<rparr>,
      exampleDb\<lparr>employees := [exampleEmployee\<lparr>el_balance := Some 18\<rparr>]\<rparr>)"
proof -
  have run: "normalizeEmployeeBalances no_faults ''EMP001'' exampleDb =
     (Inr \<lparr>cl = 10, rh = 5, el = 18\<rparr>,
      exampleDb\<lparr>employees := [exampleEmployee\<lparr>el_balance := Some 18\<rparr>]\<rparr>)"
    by code_simp
  from normalize_in_caps_idempotent[OF run] run show ?thesis by simp
qed

text \<open>
  C8. For every pattern of failing store calls, \<open>normalizeEmployeeBalances\<close> either
  fails and leaves the tables exactly as they were, or succeeds and the tables are the
  old ones with the one UPDATE applied, which writes all three balances of the employee.
  When no row has the identifier the call fails with the tables unchanged, and the
  failure is "Employee not found" unless the store failed before the lookup finished.
\<close>

theorem normalize_atomic:
  assumes "normalizeEmployeeBalances faults employeeId d = (r, d')"
  shows "(case r of Inl err \<Rightarrow> d' = d | Inr b \<Rightarrow> d' = updateBalances b employeeId d) \<and>
         (\<not> list_ex (\<lambda>e. employee_id e = employeeId) (employees d) \<longrightarrow>
            d' = d \<and>
            r = (if faults Connect \<or> faults Begin \<or> faults SelectBalances
                 then Inl InternalError else Inl (NotFound ''Employee not found'')))"
proof (cases "filter (\<lambda>e. employee_id e = employeeId) (employees d)")
  case Nil
  then have "\<not> list_ex (\<lambda>e. employee_id e = employeeId) (employees d)"
    by (simp add: list_ex_iff filter_empty_conv)
  with Nil assms show ?thesis
    unfolding normalizeEmployeeBalances_unfold by (auto split: if_splits)
next
  case (Cons e es)
  then have "list_ex (\<lambda>e. employee_id e = employeeId) (employees d)"
    using filter_Cons_mem[OF Cons] by (auto simp: list_ex_iff)
  with Cons assms show ?thesis
    unfolding normalizeEmployeeBalances_unfold by (auto split: if_splits)
qed

theorem normalize_atomic_witness:
  "normalizeEmployeeBalances (\<lambda>c. c = Commit) ''EMP001'' exampleDb = (Inl InternalError, exampleDb) \<and>
   normalizeEmployeeBalances no_faults ''EMP999'' exampleDb =
     (Inl (NotFound ''Employee not found''), exampleDb)"
proof -
  obtain r d' where run: "normalizeEmployeeBalances (\<lambda>c. c = Commit) ''EMP001'' exampleDb = (r, d')"
    by (cases "normalizeEmployeeBalances (\<lambda>c. c = Commit) ''EMP001'' exampleDb")
  have failed: "r = Inl InternalError"
    using run by (simp add: normalizeEmployeeBalances_unfold exampleDb_def exampleEmployee_def)
  obtain r2 d2 where run2: "normalizeEmployeeBalances no_faults ''EMP999'' exampleDb = (r2, d2)"
    by (cases "normalizeEmployeeBalances no_faults ''EMP999'' exampleDb")
  have absent: "\<not> list_ex (\<lambda>e. employee_id e = ''EMP999'') (employees exampleDb)"
    by (simp add: exampleDb_def exampleEmployee_def)
  from normalize_atomic[OF run] failed have "d' = exampleDb" by simp
  moreover from normalize_atomic[OF run2] absent
  have "d2 = exampleDb \<and> r2 = Inl (NotFound ''Employee not found'')"
    by (simp add: no_faults_def)
  ultimately show ?thesis using run run2 failed by simp
qed

subsection \<open>Create\<close>

lemma createLeaveChecks_Inr:
  assumes "createLeaveChecks today req d = Inr c"
  shows "chk_leave_type c = orEmpty (req_leave_type req)"
    and "chk_employee_id c = orEmpty (req_employee_id req)"
    and "req_start_date req = Some (chk_start_date c)"
    and "req_end_date req = Some (chk_end_date c)"
    and "chk_days c = calculateLeaveDays (chk_start_date c) (chk_end_date c)"
    and "validateDateRange today (chk_start_date c) (chk_end_date c)"
    and "validateLeaveType (req_leave_type req)"
  using assms
  by (auto simp: createLeaveChecks_def Let_def split: if_splits option.splits list.splits prod.splits)

lemma insertLeave_Inr:
  assumes "insertLeave p1 p2 p3 p4 p5 p6 p7 d = (Inr l, d')"
  shows "leaves d' = leaves d @ [l]" and "status l = PENDING" and "p2 = Some (leave_type l)"
    and "days l = p5" and "list_ex (\<lambda>e. employee_id e = leave_employee_id l) (employees d)"
    and "employees d' = employees d"
  using assms
  by (auto simp: insertLeave_def Let_def split: if_splits option.splits prod.splits)

lemma insertLeave_not_overlap:
  "fst (insertLeave p1 p2 p3 p4 p5 p6 p7 d) \<noteq> Inl OverlapConflict"
  by (auto simp: insertLeave_def Let_def split: if_splits option.splits prod.splits)

lemma overlapClause_inclusive:
  "s1 \<le> e1 \<Longrightarrow> s2 \<le> e2 \<Longrightarrow> overlapClause s1 e1 s2 e2 = inclusiveOverlap s1 e1 s2 e2"
  unfolding overlapClause_def inclusiveOverlap_def by auto

text \<open>
  The overlap step of Create, for a request that has passed the checks up to the balance
  check and stored ranges with start not after end: Create answers with the overlap
  conflict exactly when some leave stored under the identifier as the request gives it
  (trimmed), not REJECTED, has a range \<open>[s1, e1]\<close> with \<open>s1 \<le> e2\<close> and \<open>s2 \<le> e1\<close> for
  the requested \<open>[s2, e2]\<close>. The three-case clause of the query and the
  inclusive-interval test agree on all ranges with \<open>s1 \<le> e1\<close> and \<open>s2 \<le> e2\<close>.
\<close>

lemma overlap_conflict_iff_inclusive:
  assumes c: "createLeaveChecks today req d = Inr c"
    and wf: "\<forall>l \<in> set (leaves d). start_date l \<le> end_date l"
  shows "(fst (createLeave today req d) = Inl OverlapConflict) =
           (\<exists>l \<in> set (leaves d). leave_employee_id l = trim (chk_employee_id c) \<and>
                status l \<noteq> REJECTED \<and>
                inclusiveOverlap (start_date l) (end_date l) (chk_start_date c) (chk_end_date c))
         \<and> (\<forall>s1 e1 s2 e2. s1 \<le> e1 \<longrightarrow> s2 \<le> e2 \<longrightarrow>
                overlapClause s1 e1 s2 e2 = inclusiveOverlap s1 e1 s2 e2)"
proof -
  have le: "chk_start_date c \<le> chk_end_date c"
    using createLeaveChecks_Inr(6)[OF c] by (rule validateDateRange_le)
  have ov: "(overlappingLeaves (trim (chk_employee_id c)) (chk_start_date c) (chk_end_date c) d \<noteq> []) =
        (\<exists>l \<in> set (leaves d). leave_employee_id l = trim (chk_employee_id c) \<and>
                status l \<noteq> REJECTED \<and>
                inclusiveOverlap (start_date l) (end_date l) (chk_start_date c) (chk_end_date c))"
    using wf le by (auto simp: overlappingLeaves_def filter_empty_conv overlapClause_inclusive)
  have "(fst (createLeave today req d) = Inl OverlapConflict) =
        (overlappingLeaves (trim (chk_employee_id c)) (chk_start_date c) (chk_end_date c) d \<noteq> [])"
    using insertLeave_not_overlap by (simp add: createLeave_def c)
  with ov show ?thesis by (simp add: overlapClause_inclusive)
qed

lemma overlap_conflict_iff_inclusive_example:
  "createLeaveChecks 5 (exampleRequest ''EMP001'' ''CL'' 11 13) exampleDb =
     Inr \<lparr>chk_employee_id = ''EMP001'', chk_leave_type = ''CL'', chk_start_date = 11,
          chk_end_date = 13, chk_reason = ''family function'', chk_days = 3\<rparr> \<and>
   list_all (\<lambda>l. start_date l \<le> end_date l) (leaves exampleDb) \<and>
   inclusiveOverlap (start_date exampleLeave) (end_date exampleLeave) 11 13 \<and>
   fst (createLeave 5 (exampleRequest ''EMP001'' ''CL'' 11 13) exampleDb) = Inl OverlapConflict \<and>
   fst (createLeave 5 (exampleRequest ''EMP001'' ''CL'' 13 14) exampleDb) \<noteq> Inl OverlapConflict"
proof -
  have c1: "createLeaveChecks 5 (exampleRequest ''EMP001'' ''CL'' 11 13) exampleDb =
     Inr \<lparr>chk_employee_id = ''EMP001'', chk_leave_type = ''CL'', chk_start_date = 11,
          chk_end_date = 13, chk_reason = ''family function'', chk_days = 3\<rparr>"
    by code_simp
  have c2: "createLeaveChecks 5 (exampleRequest ''EMP001'' ''CL'' 13 14) exampleDb =
     Inr \<lparr>chk_employee_id = ''EMP001'', chk_leave_type = ''CL'', chk_start_date = 13,
          chk_end_date = 14, chk_reason = ''family function'', chk_days = 2\<rparr>"
    by code_simp
  have wf: "\<forall>l \<in> set (leaves exampleDb). start_date l \<le> end_date l"
    by (simp add: exampleDb_def exampleLeave_def)
  have tr: "trim ''EMP001'' = ''EMP001''"
    by code_simp
  have yes: "fst (createLeave 5 (exampleRequest ''EMP001'' ''CL'' 11 13) exampleDb) = Inl OverlapConflict"
    using overlap_conflict_iff_inclusive[OF c1 wf]
    by (simp add: tr exampleDb_def exampleLeave_def inclusiveOverlap_def)
  have no: "fst (createLeave 5 (exampleRequest ''EMP001'' ''CL'' 13 14) exampleDb) \<noteq> Inl OverlapConflict"
    using overlap_conflict_iff_inclusive[OF c2 wf]
    by (simp add: tr exampleDb_def exampleLeave_def inclusiveOverlap_def)
  from c1 wf yes no show ?thesis
    by (simp add: list_all_iff exampleLeave_def inclusiveOverlap_def)
qed

text \<open>
  C3. The claim: Create rejects a request with the overlap conflict exactly when a
  non-REJECTED leave of the same employee overlaps the requested range (inclusive test),
  and the three-case clause of the query equals that test. The code: the clause equals
  the test (\<open>overlapClause_inclusive\<close>), and for an identifier given as it is stored
  Create behaves as claimed (\<open>overlap_conflict_iff_inclusive\<close>). But the employee is
  resolved with \<^verbatim>\<open>LOWER(employee_id) = LOWER($1)\<close> while the overlap query compares
  \<^verbatim>\<open>employee_id = $1\<close>: with \<^verbatim>\<open>emp001\<close> for the stored \<^verbatim>\<open>EMP001\<close> the request passes
  all checks, the PENDING leave of that employee on days 10 to 12 overlaps the requested
  days 11 to 13, the query finds no row, and the request ends in the internal error of
  the INSERT (foreign key) instead of the overlap conflict.
\<close>

theorem createLeave_case_variant_misses_overlap:
  "createLeaveChecks 5 (exampleRequest ''emp001'' ''CL'' 11 13) exampleDb =
     Inr \<lparr>chk_employee_id = ''emp001'', chk_leave_type = ''CL'', chk_start_date = 11,
          chk_end_date = 13, chk_reason = ''family function'', chk_days = 3\<rparr> \<and>
   lowerEq (employee_id exampleEmployee) ''emp001'' \<and>
   leave_employee_id exampleLeave = employee_id exampleEmployee \<and>
   status exampleLeave = PENDING \<and>
   inclusiveOverlap (start_date exampleLeave) (end_date exampleLeave) 11 13 \<and>
   overlappingLeaves ''emp001'' 11 13 exampleDb = [] \<and>
   fst (createLeave 5 (exampleRequest ''emp001'' ''CL'' 11 13) exampleDb) = Inl InternalError \<and>
   leaves (snd (createLeave 5 (exampleRequest ''emp001'' ''CL'' 11 13) exampleDb)) = [exampleLeave] \<and>
   fst (createLeave 5 (exampleRequest ''EMP001'' ''CL'' 11 13) exampleDb) = Inl OverlapConflict"
  by code_simp

text \<open>
  C10. A leave record that Create persists is appended to the leaves table with status
  PENDING, its leave type is \<open>normalizeLeaveType\<close> of the type supplied, one of CL, RH
  and EL, and its day count is at least 1.
\<close>

theorem created_leave_invariants:
  assumes "createLeave today req d = (Inr l, d')"
  shows "leaves d' = leaves d @ [l] \<and> status l = PENDING \<and>
         normalizeLeaveType (req_leave_type req) = Some (leave_type l) \<and>
         leave_type l \<in> {''CL'', ''RH'', ''EL''} \<and> 1 \<le> days l"
proof -
  from assms obtain c where c: "createLeaveChecks today req d = Inr c"
    and ins: "insertLeave (trim (chk_employee_id c)) (normalizeLeaveType (Some (chk_leave_type c)))
                 (chk_start_date c) (chk_end_date c) (chk_days c)
                 (sanitizeInput (trim (chk_reason c))) (map_option forwardSlashes (req_file req)) d =
              (Inr l, d')"
    by (auto simp: createLeave_def split: sum.splits if_splits)
  have t: "normalizeLeaveType (req_leave_type req) = Some (leave_type l)"
    using insertLeave_Inr(3)[OF ins] createLeaveChecks_Inr(1)[OF c]
    by (simp add: normalizeLeaveType_orEmpty)
  have "days l = calculateLeaveDays (chk_start_date c) (chk_end_date c)"
    using insertLeave_Inr(4)[OF ins] createLeaveChecks_Inr(5)[OF c] by simp
  then have "1 \<le> days l" by (simp add: calculateLeaveDays_ge_1)
  with t insertLeave_Inr(1,2)[OF ins] normalizeLeaveType_Some[OF t] show ?thesis by simp
qed

theorem created_leave_invariants_witness:
  "createLeave 5 (exampleRequest ''EMP001'' '' cl '' 20 22) exampleDb =
     (Inr \<lparr>leave_id = 2, leave_employee_id = ''EMP001'', leave_type = ''CL'',
           start_date = 20, end_date = 22, days = 3, reason = ''family function'',
           status = PENDING, approved_by = None, document_path = None\<rparr>,
      exampleDb\<lparr>leaves := [exampleLeave,
           \<lparr>leave_id = 2, leave_employee_id = ''EMP001'', leave_type = ''CL'',
            start_date = 20, end_date = 22, days = 3, reason = ''family function'',
            status = PENDING, approved_by = None, document_path = None\<rparr>],
         leaves_id_seq := 3\<rparr>) \<and>
   normalizeLeaveType (Some '' cl '') = Some ''CL''"
proof -
  have run: "createLeave 5 (exampleRequest ''EMP001'' '' cl '' 20 22) exampleDb =
     (Inr \<lparr>leave_id = 2, leave_employee_id = ''EMP001'', leave_type = ''CL'',
           start_date = 20, end_date = 22, days = 3, reason = ''family function'',
           status = PENDING, approved_by = None, document_path = None\<rparr>,
      exampleDb\<lparr>leaves := [exampleLeave,
           \<lparr>leave_id = 2, leave_employee_id = ''EMP001'', leave_type = ''CL'',
            start_date = 20, end_date = 22, days = 3, reason = ''family function'',
            status = PENDING, approved_by = None, document_path = None\<rparr>],
         leaves_id_seq := 3\<rparr>)"
    by code_simp
  from created_leave_invariants[OF run] run show ?thesis
    by (simp add: exampleRequest_def)
qed

subsection \<open>SetStatus and Delete\<close>

lemma filter_key_single:
  assumes "distinct (map f xs)" and "x \<in> set xs"
  shows "filter (\<lambda>y. f y = f x) xs = [x]"
  using assms
proof (induction xs)
  case Nil
  then show ?case by simp
next
  case (Cons a xs)
  show ?case
  proof (cases "a = x")
    case True
    with Cons.prems have "f x \<notin> f ` set xs" by simp
    then have "\<forall>y \<in> set xs. f y \<noteq> f x" by (metis image_eqI)
    then have "filter (\<lambda>y. f y = f x) xs = []" by (simp add: filter_empty_conv)
    with True show ?thesis by simp
  next
    case False
    with Cons.prems have x: "x \<in> set xs" and d: "distinct (map f xs)" by auto
    from Cons.prems have "f a \<notin> f ` set xs" by simp
    with x have "f a \<noteq> f x" by (metis image_eqI)
    with Cons.IH[OF d x] show ?thesis by simp
  qed
qed

lemma setBalance_simps [simp]:
  "employee_id (setBalance f v e) = employee_id e"
  by (simp add: setBalance_def)

lemma balanceOf_setBalance:
  "f \<in> {''cl_balance'', ''rh_balance'', ''el_balance''} \<Longrightarrow> balanceOf (setBalance f v e) f = Num v"
  by (auto simp: setBalance_def balanceOf_def column_def)

lemma varchar_short: "length s \<le> n \<Longrightarrow> varchar n s = Some s"
  by (simp add: varchar_def)

lemma balance_field_of_type:
  "(t, f) \<in> {(''CL'', ''cl_balance''), (''RH'', ''rh_balance''), (''EL'', ''el_balance'')} \<Longrightarrow>
     toLowerCase t @ ''_balance'' = f \<and> f \<in> {''cl_balance'', ''rh_balance'', ''el_balance''}"
  by (auto simp: toLowerCase_def lowerTable_def)

lemma selectLeaveWithBalances_single:
  assumes "distinct (map leave_id (leaves d))" "distinct (map employee_id (employees d))"
    and "l \<in> set (leaves d)" "e \<in> set (employees d)" "employee_id e = leave_employee_id l"
  shows "selectLeaveWithBalances (statusSelectColumns ''APPROVED'') (leave_id l) d = Inr [(l, e)]"
proof -
  have 1: "filter (\<lambda>x. leave_id x = leave_id l) (leaves d) = [l]"
    using assms(1,3) by (rule filter_key_single)
  have "filter (\<lambda>x. employee_id x = employee_id e) (employees d) = [e]"
    using assms(2,4) by (rule filter_key_single)
  then have 2: "filter (\<lambda>x. leave_employee_id l = employee_id x) (employees d) = [e]"
    by (simp add: assms(5) eq_commute)
  show ?thesis
    by (simp add: selectLeaveWithBalances_def statusSelectColumns_def 1 2)
qed

lemma map_key_same:
  assumes "\<And>x. k (f x) = k x"
  shows "map k (map f xs) = map k xs"
  by (induction xs) (simp_all add: assms)

text \<open>
  Approval. With leave ids and employee identifiers unique, a PENDING request of type CL,
  RH or EL whose employee has stored balance \<open>b\<close> for that type (NULL counting as 0), an
  approver of at most 50 characters and \<open>b - days\<close> within INTEGER:
  \<open>SetStatus(id, 'APPROVED', approver)\<close> succeeds, the request becomes APPROVED, the
  employee's balance for that type becomes \<open>b - days\<close> (for CL, 3 days and balance 10:
  7), and a further approval of the same id fails with the invalid-transition error and
  changes nothing.
\<close>

lemma setStatus_approved_deducts:
  assumes keys: "distinct (map leave_id (leaves d))" "distinct (map employee_id (employees d))"
    and l: "l \<in> set (leaves d)" "status l = PENDING"
    and e: "e \<in> set (employees d)" "employee_id e = leave_employee_id l"
    and t: "(leave_type l, balanceField) \<in>
              {(''CL'', ''cl_balance''), (''RH'', ''rh_balance''), (''EL'', ''el_balance'')}"
    and b: "toNumber (balanceOf e balanceField) = Some b" "int4 (b - days l)"
    and a: "approver \<noteq> ''''" "length approver \<le> 50"
  shows "\<exists>d'. setStatus (leave_id l) ''APPROVED'' (Some approver) d = (Inr (), d') \<and>
           leaves d' = map (\<lambda>x. if leave_id x = leave_id l
                                  then x\<lparr>status := APPROVED, approved_by := Some approver\<rparr>
                                  else x) (leaves d) \<and>
           employees d' = map (\<lambda>x. if employee_id x = employee_id e
                                     then setBalance balanceField (b - days l) x
                                     else x) (employees d) \<and>
           (\<exists>e' \<in> set (employees d'). employee_id e' = employee_id e \<and>
                balanceOf e' balanceField = Num (b - days l)) \<and>
           (\<forall>again. again \<noteq> '''' \<longrightarrow>
                setStatus (leave_id l) ''APPROVED'' (Some again) d' = (Inl InvalidTransition, d'))"
proof -
  define f :: "leave \<Rightarrow> leave" where "f = (\<lambda>x. if leave_id x = leave_id l
                            then x\<lparr>status := APPROVED, approved_by := Some approver\<rparr> else x)"
  define g :: "employee \<Rightarrow> employee" where "g = (\<lambda>x. if employee_id x = leave_employee_id l
                            then setBalance balanceField (b - days l) x else x)"
  define d1 where "d1 = d\<lparr>leaves := map f (leaves d)\<rparr>"
  define d2 where "d2 = d1\<lparr>employees := map g (employees d1)\<rparr>"
  have fid: "\<And>x. leave_id (f x) = leave_id x" by (simp add: f_def)
  have gid: "\<And>x. employee_id (g x) = employee_id x" by (simp add: g_def)
  have fld: "toLowerCase (leave_type l) @ ''_balance'' = balanceField"
    and fld_ok: "balanceField \<in> {''cl_balance'', ''rh_balance'', ''el_balance''}"
    using balance_field_of_type[OF t] by simp_all
  have sel: "selectLeaveWithBalances (statusSelectColumns ''APPROVED'') (leave_id l) d = Inr [(l, e)]"
    using keys l(1) e by (rule selectLeaveWithBalances_single)
  have upd1: "updateLeaveStatus ''APPROVED'' approver (leave_id l) d = Inr d1"
    by (simp add: updateLeaveStatus_def statusOfString_def varchar_short[OF a(2)] d1_def f_def)
  have nb: "js_minus (balanceOf e balanceField) (Num (days l)) = Num (b - days l)"
    by (simp add: js_minus_def b(1))
  have upd2: "updateEmployeeBalance balanceField (Num (b - days l)) (leave_employee_id l) d1 = Inr d2"
    using fld_ok b(2) by (simp add: updateEmployeeBalance_def d2_def g_def)
  have run: "setStatus (leave_id l) ''APPROVED'' (Some approver) d = (Inr (), d2)"
    by (simp add: setStatus_def orEmpty_def a(1) sel l(2) upd1 fld nb upd2 Let_def)
  have leaves2: "leaves d2 = map f (leaves d)" by (simp add: d2_def d1_def)
  have emps2: "employees d2 = map g (employees d)" by (simp add: d2_def d1_def)
  have fl: "f l \<in> set (leaves d2)" unfolding leaves2 using l(1) by simp
  have ge: "g e \<in> set (employees d2)" unfolding emps2 using e(1) by simp
  have gbal: "balanceOf (g e) balanceField = Num (b - days l)"
    using fld_ok by (simp add: g_def e(2) balanceOf_setBalance)
  have k1: "map leave_id (leaves d2) = map leave_id (leaves d)"
    unfolding leaves2 by (rule map_key_same) (rule fid)
  have k2: "map employee_id (employees d2) = map employee_id (employees d)"
    unfolding emps2 by (rule map_key_same) (rule gid)
  have keys2: "distinct (map leave_id (leaves d2))" "distinct (map employee_id (employees d2))"
    using keys by (simp_all only: k1 k2)
  have own: "employee_id (g e) = leave_employee_id (f l)"
    by (simp add: gid e(2) f_def)
  have sel2: "selectLeaveWithBalances (statusSelectColumns ''APPROVED'') (leave_id l) d2 = Inr [(f l, g e)]"
    using selectLeaveWithBalances_single[OF keys2 fl ge own] by (simp add: fid)
  have st: "status (f l) = APPROVED" by (simp add: f_def)
  have second: "\<forall>again. again \<noteq> '''' \<longrightarrow>
                setStatus (leave_id l) ''APPROVED'' (Some again) d2 = (Inl InvalidTransition, d2)"
    by (simp add: setStatus_def orEmpty_def sel2 st)
  have "leaves d2 = map (\<lambda>x. if leave_id x = leave_id l
                                  then x\<lparr>status := APPROVED, approved_by := Some approver\<rparr>
                                  else x) (leaves d)"
    using leaves2 by (simp add: f_def)
  moreover have "employees d2 = map (\<lambda>x. if employee_id x = employee_id e
                                     then setBalance balanceField (b - days l) x
                                     else x) (employees d)"
    using emps2 by (simp add: g_def e(2))
  moreover have "\<exists>e' \<in> set (employees d2). employee_id e' = employee_id e \<and>
                balanceOf e' balanceField = Num (b - days l)"
    using ge gbal gid by blast
  ultimately show ?thesis using run second by blast
qed

lemma setStatus_approved_deducts_example:
  "setStatus 1 ''APPROVED'' (Some ''ADM001'') exampleDb =
     (Inr (), exampleDb\<lparr>employees := [exampleEmployee\<lparr>cl_balance := Some 7\<rparr>],
                        leaves := [exampleLeave\<lparr>status := APPROVED, approved_by := Some ''ADM001''\<rparr>]\<rparr>) \<and>
   setStatus 1 ''APPROVED'' (Some ''ADM001'')
     (exampleDb\<lparr>employees := [exampleEmployee\<lparr>cl_balance := Some 7\<rparr>],
                leaves := [exampleLeave\<lparr>status := APPROVED, approved_by := Some ''ADM001''\<rparr>]\<rparr>) =
     (Inl InvalidTransition,
      exampleDb\<lparr>employees := [exampleEmployee\<lparr>cl_balance := Some 7\<rparr>],
                leaves := [exampleLeave\<lparr>status := APPROVED, approved_by := Some ''ADM001''\<rparr>]\<rparr>)"
proof -
  have run: "setStatus 1 ''APPROVED'' (Some ''ADM001'') exampleDb =
     (Inr (), exampleDb\<lparr>employees := [exampleEmployee\<lparr>cl_balance := Some 7\<rparr>],
                        leaves := [exampleLeave\<lparr>status := APPROVED, approved_by := Some ''ADM001''\<rparr>]\<rparr>)"
    by code_simp
  have hyps: "distinct (map leave_id (leaves exampleDb))"
    "distinct (map employee_id (employees exampleDb))"
    "exampleLeave \<in> set (leaves exampleDb)" "status exampleLeave = PENDING"
    "exampleEmployee \<in> set (employees exampleDb)"
    "employee_id exampleEmployee = leave_employee_id exampleLeave"
    "(leave_type exampleLeave, ''cl_balance'') \<in>
       {(''CL'', ''cl_balance''), (''RH'', ''rh_balance''), (''EL'', ''el_balance'')}"
    "toNumber (balanceOf exampleEmployee ''cl_balance'') = Some 10"
    "int4 (10 - days exampleLeave)"
    "''ADM001'' \<noteq> ''''" "length ''ADM001'' \<le> 50"
    by (simp_all add: exampleDb_def exampleLeave_def exampleEmployee_def balanceOf_def
        column_def int4_def)
  have id1: "leave_id exampleLeave = 1" by (simp add: exampleLeave_def)
  from setStatus_approved_deducts[OF hyps] obtain d' where
    first: "setStatus 1 ''APPROVED'' (Some ''ADM001'') exampleDb = (Inr (), d')"
    and again: "setStatus 1 ''APPROVED'' (Some ''ADM001'') d' = (Inl InvalidTransition, d')"
    unfolding id1 by blast
  from first run have "d' = exampleDb\<lparr>employees := [exampleEmployee\<lparr>cl_balance := Some 7\<rparr>],
                        leaves := [exampleLeave\<lparr>status := APPROVED, approved_by := Some ''ADM001''\<rparr>]\<rparr>"
    by simp
  with again run show ?thesis by simp
qed

text \<open>
  C1. The claim: \<open>SetStatus(id, 'APPROVED', approver)\<close> on a PENDING request of type CL
  with 3 days, whose employee has the CL balance 10, sets the status to APPROVED and the
  balance to 7, an approval deducts the days from the balance of the leave type, and a
  second SetStatus call on the same id fails with the invalid-transition error. The
  code: the approval does what the claim says (\<open>setStatus_approved_deducts\<close>) and a
  second call with status APPROVED is refused with the invalid-transition error; a
  second call with status REJECTED ends in the internal error, because for that status
  the handler's SELECT has nothing spliced in after \<^verbatim>\<open>e.\<close> and the store rejects it
  before the status of the request is looked at.
\<close>

theorem setStatus_second_call_rejected_internal_error:
  "setStatus 1 ''APPROVED'' (Some ''ADM001'') exampleDb =
     (Inr (), exampleDb\<lparr>employees := [exampleEmployee\<lparr>cl_balance := Some 7\<rparr>],
                        leaves := [exampleLeave\<lparr>status := APPROVED, approved_by := Some ''ADM001''\<rparr>]\<rparr>) \<and>
   setStatus 1 ''APPROVED'' (Some ''ADM001'')
     (exampleDb\<lparr>employees := [exampleEmployee\<lparr>cl_balance := Some 7\<rparr>],
                leaves := [exampleLeave\<lparr>status := APPROVED, approved_by := Some ''ADM001''\<rparr>]\<rparr>) =
     (Inl InvalidTransition,
      exampleDb\<lparr>employees := [exampleEmployee\<lparr>cl_balance := Some 7\<rparr>],
                leaves := [exampleLeave\<lparr>status := APPROVED, approved_by := Some ''ADM001''\<rparr>]\<rparr>) \<and>
   setStatus 1 ''REJECTED'' (Some ''ADM001'')
     (exampleDb\<lparr>employees := [exampleEmployee\<lparr>cl_balance := Some 7\<rparr>],
                leaves := [exampleLeave\<lparr>status := APPROVED, approved_by := Some ''ADM001''\<rparr>]\<rparr>) =
     (Inl InternalError,
      exampleDb\<lparr>employees := [exampleEmployee\<lparr>cl_balance := Some 7\<rparr>],
                leaves := [exampleLeave\<lparr>status := APPROVED, approved_by := Some ''ADM001''\<rparr>]\<rparr>)"
  by code_simp

lemma deleteLeave_not_pending:
  assumes "distinct (map leave_id (leaves d))" and "l \<in> set (leaves d)" and "status l \<noteq> PENDING"
  shows "deleteLeave (leave_id l) d = (Inl InvalidState, d)"
proof -
  have "filter (\<lambda>x. leave_id x = leave_id l) (leaves d) = [l]"
    using assms(1,2) by (rule filter_key_single)
  then show ?thesis by (simp add: deleteLeave_def assms(3))
qed

lemma setStatus_not_pending_unchanged:
  assumes "distinct (map leave_id (leaves d))" and "l \<in> set (leaves d)" and "status l \<noteq> PENDING"
  shows "snd (setStatus (leave_id l) status_arg approver d) = d \<and>
         (\<exists>err. fst (setStatus (leave_id l) status_arg approver d) = Inl err)"
proof -
  have one: "filter (\<lambda>x. leave_id x = leave_id l) (leaves d) = [l]"
    using assms(1,2) by (rule filter_key_single)
  show ?thesis
    by (cases "filter (\<lambda>e. leave_employee_id l = employee_id e) (employees d)")
      (simp_all add: setStatus_def selectLeaveWithBalances_def one assms(3))
qed

lemma setStatus_approve_not_pending:
  assumes "distinct (map leave_id (leaves d))" and "l \<in> set (leaves d)" and "status l \<noteq> PENDING"
    and "e \<in> set (employees d)" and "employee_id e = leave_employee_id l" and "approver \<noteq> ''''"
  shows "setStatus (leave_id l) ''APPROVED'' (Some approver) d = (Inl InvalidTransition, d)"
proof -
  have one: "filter (\<lambda>x. leave_id x = leave_id l) (leaves d) = [l]"
    using assms(1,2) by (rule filter_key_single)
  have "e \<in> set (filter (\<lambda>e. leave_employee_id l = employee_id e) (employees d))"
    using assms(4,5) by simp
  then obtain x xs where "filter (\<lambda>e. leave_employee_id l = employee_id e) (employees d) = x # xs"
    by (cases "filter (\<lambda>e. leave_employee_id l = employee_id e) (employees d)") simp_all
  then show ?thesis
    by (simp add: setStatus_def selectLeaveWithBalances_def statusSelectColumns_def one
        orEmpty_def assms(3,6))
qed

text \<open>
  C7. The claim: SetStatus on a request that is not PENDING fails with the
  invalid-transition error. The code: with the new status REJECTED the handler's SELECT
  has nothing spliced in after \<^verbatim>\<open>e.\<close> and is rejected by the store, so the call ends
  in the internal error, for an APPROVED request as for a PENDING one. (That nothing
  changes, and that an approval or a delete of a request that is not PENDING is refused
  with the claimed errors, is \<open>setStatus_not_pending_unchanged\<close>,
  \<open>setStatus_approve_not_pending\<close> and \<open>deleteLeave_not_pending\<close>.)
\<close>

theorem setStatus_rejected_internal_error:
  "setStatus 1 ''REJECTED'' (Some ''ADM001'')
     (exampleDb\<lparr>leaves := [exampleLeave\<lparr>status := APPROVED, approved_by := Some ''ADM001''\<rparr>]\<rparr>) =
     (Inl InternalError,
      exampleDb\<lparr>leaves := [exampleLeave\<lparr>status := APPROVED, approved_by := Some ''ADM001''\<rparr>]\<rparr>) \<and>
   setStatus 1 ''REJECTED'' (Some ''ADM001'') exampleDb = (Inl InternalError, exampleDb)"
  by (simp add: setStatus_def statusSelectColumns_def selectLeaveWithBalances_def orEmpty_def)

subsection \<open>Balance check and identifier case in Create\<close>

lemma find_Some_filter:
  "find P xs = Some y \<Longrightarrow> \<exists>ys. filter P xs = y # ys"
proof (induction xs)
  case Nil
  then show ?case by simp
next
  case (Cons a xs)
  then show ?case by (cases "P a") simp_all
qed

lemma createLeave_insufficient_balance:
  assumes valid: "validateEmployeeId (req_employee_id req)" "validateLeaveType (req_leave_type req)"
      "req_start_date req = Some s" "req_end_date req = Some e" "validateDateRange today s e"
      "orEmpty (req_reason req) \<noteq> ''''" "trim (orEmpty (req_reason req)) \<noteq> ''''"
    and emp: "find (\<lambda>x. lowerEq (employee_id x) (trim (orEmpty (req_employee_id req)))) (employees d) =
                Some emp"
    and field: "toLowerCase (orEmpty (req_leave_type req)) @ ''_balance'' = field"
      "field \<in> {''cl_balance'', ''rh_balance'', ''el_balance''}"
    and low: "toNumber (balanceOf emp field) = Some b" "b < calculateLeaveDays s e"
  shows "createLeave today req d =
           (Inl (InsufficientBalance (orEmpty (req_leave_type req)) (balanceOf emp field)
                   (calculateLeaveDays s e)), d)"
proof -
  from find_Some_filter[OF emp] obtain rest where
    rows: "filter (\<lambda>x. lowerEq (employee_id x) (trim (orEmpty (req_employee_id req)))) (employees d) =
             emp # rest" by blast
  have ok: "truthy (validateLeaveDays (calculateLeaveDays s e) (orEmpty (req_leave_type req)))"
    by (rule validateLeaveDays_truthy) (rule calculateLeaveDays_ge_1)
  have lt: "js_lt (balanceOf emp field) (Num (calculateLeaveDays s e))"
    by (simp add: js_lt_def low)
  have "createLeaveChecks today req d =
          Inl (InsufficientBalance (orEmpty (req_leave_type req)) (balanceOf emp field)
                 (calculateLeaveDays s e))"
    by (simp add: createLeaveChecks_def valid rows ok field(1) lt Let_def)
  then show ?thesis by (simp add: createLeave_def)
qed

text \<open>
  C2. The claim: when the employee's balance for the requested type is below the day
  count, Create fails with the insufficient-balance error and no record is persisted.
  The code: the balance is looked up under \<^verbatim>\<open>`${leave_type.toLowerCase()}_balance`\<close>
  with the type as supplied, while validation and the INSERT trim it. For the type
  \<^verbatim>\<open>'CL '\<close> the key is \<^verbatim>\<open>'cl _balance'\<close>, the lookup is \<^verbatim>\<open>undefined\<close>, the
  comparison is false, and a 16-day request against a balance of 10 is stored. The same
  request with type \<^verbatim>\<open>'CL'\<close> is refused; for a type whose lower-case text is
  \<^verbatim>\<open>cl\<close>, \<^verbatim>\<open>rh\<close> or \<^verbatim>\<open>el\<close> the claim holds (\<open>createLeave_insufficient_balance\<close>).
\<close>

theorem createLeave_padded_type_skips_balance_check:
  "createLeave 5 (exampleRequest ''EMP001'' ''CL '' 20 35) exampleDb =
     (Inr \<lparr>leave_id = 2, leave_employee_id = ''EMP001'', leave_type = ''CL'',
           start_date = 20, end_date = 35, days = 16, reason = ''family function'',
           status = PENDING, approved_by = None, document_path = None\<rparr>,
      exampleDb\<lparr>leaves := [exampleLeave,
           \<lparr>leave_id = 2, leave_employee_id = ''EMP001'', leave_type = ''CL'',
            start_date = 20, end_date = 35, days = 16, reason = ''family function'',
            status = PENDING, approved_by = None, document_path = None\<rparr>],
         leaves_id_seq := 3\<rparr>) \<and>
   cl_balance exampleEmployee = Some 10 \<and>
   createLeave 5 (exampleRequest ''EMP001'' ''CL'' 20 35) exampleDb =
     (Inl (InsufficientBalance ''CL'' (Num 10) 16), exampleDb)"
  by code_simp

text \<open>
  C9. The claim: every operation that looks an employee up by identifier gives the same
  result for identifiers that differ only in letter case. The code: Create resolves the
  employee with \<^verbatim>\<open>LOWER(employee_id) = LOWER($1)\<close>, but its overlap query and its INSERT
  use the identifier as supplied, and \<open>normalizeEmployeeBalances\<close> selects with
  \<^verbatim>\<open>employee_id = $1\<close>. For the stored identifier \<^verbatim>\<open>EMP001\<close>: Create with \<^verbatim>\<open>EMP001\<close>
  stores the request, Create with \<^verbatim>\<open>emp001\<close> ends in the internal error (foreign key),
  also for a range that overlaps a stored leave; normalization with \<^verbatim>\<open>EMP001\<close> succeeds
  and with \<^verbatim>\<open>emp001\<close> fails with "Employee not found".
\<close>

theorem identifier_case_changes_result:
  "fst (createLeave 5 (exampleRequest ''EMP001'' ''CL'' 20 22) exampleDb) =
     Inr \<lparr>leave_id = 2, leave_employee_id = ''EMP001'', leave_type = ''CL'',
          start_date = 20, end_date = 22, days = 3, reason = ''family function'',
          status = PENDING, approved_by = None, document_path = None\<rparr> \<and>
   fst (createLeave 5 (exampleRequest ''emp001'' ''CL'' 20 22) exampleDb) = Inl InternalError \<and>
   fst (createLeave 5 (exampleRequest ''EMP001'' ''CL'' 11 13) exampleDb) = Inl OverlapConflict \<and>
   fst (createLeave 5 (exampleRequest ''emp001'' ''CL'' 11 13) exampleDb) = Inl InternalError \<and>
   fst (normalizeEmployeeBalances no_faults ''EMP001'' exampleDb) = Inr \<lparr>cl = 10, rh = 5, el = 18\<rparr> \<and>
   fst (normalizeEmployeeBalances no_faults ''emp001'' exampleDb) =
     Inl (NotFound ''Employee not found'')"
  by code_simp

subsection \<open>Integrity sweep\<close>

lemma withinThresholds_iff: "withinThresholds e = (\<not> negativeBalance e \<and> \<not> highBalance e)"
  by (cases "cl_balance e"; cases "rh_balance e"; cases "el_balance e")
     (auto simp: withinThresholds_def negativeBalance_def highBalance_def inRange_def
        sqlLess_def sqlGreater_def)

lemma withinCaps_thresholds: "withinCaps e \<Longrightarrow> withinThresholds e"
  by (cases "cl_balance e"; cases "rh_balance e"; cases "el_balance e")
     (auto simp: withinThresholds_def withinCaps_def inRange_def)

lemma withinCaps_setBalances:
  assumes "0 \<le> cl b \<and> cl b \<le> 30 \<and> 0 \<le> rh b \<and> rh b \<le> 15 \<and> 0 \<le> el b \<and> el b \<le> 18"
  shows "withinCaps (setBalances b e)"
  using assms by (simp add: withinCaps_def inRange_def)

lemma normalize_present:
  assumes "e \<in> set (employees d)"
  shows "\<exists>b. normalizeEmployeeBalances no_faults (employee_id e) d =
               (Inr b, updateBalances b (employee_id e) d) \<and>
             0 \<le> cl b \<and> cl b \<le> 30 \<and> 0 \<le> rh b \<and> rh b \<le> 15 \<and> 0 \<le> el b \<and> el b \<le> 18"
proof (cases "filter (\<lambda>x. employee_id x = employee_id e) (employees d)")
  case Nil
  then have "\<forall>x \<in> set (employees d). employee_id x \<noteq> employee_id e"
    by (simp add: filter_empty_conv)
  with assms show ?thesis by blast
next
  case (Cons x xs)
  show ?thesis
    unfolding normalizeEmployeeBalances_unfold Cons
    by (simp add: no_faults_def normalizeLeaveBalance_nonneg)
qed

lemma updateBalances_ids:
  "map employee_id (employees (updateBalances b i d)) = map employee_id (employees d)"
  unfolding employees_updateBalances by (rule map_key_same) simp

lemma updateBalances_row:
  assumes "e' \<in> set (employees (updateBalances b i d))"
    and "0 \<le> cl b \<and> cl b \<le> 30 \<and> 0 \<le> rh b \<and> rh b \<le> 15 \<and> 0 \<le> el b \<and> el b \<le> 18"
  shows "(employee_id e' = i \<and> withinCaps e') \<or> (employee_id e' \<noteq> i \<and> e' \<in> set (employees d))"
proof -
  from assms(1) obtain x where xin: "x \<in> set (employees d)"
    and x: "e' = (if employee_id x = i then setBalances b x else x)"
    unfolding employees_updateBalances set_map by blast
  show ?thesis
  proof (cases "employee_id x = i")
    case True
    with x withinCaps_setBalances[OF assms(2)] show ?thesis by simp
  next
    case False
    with x xin show ?thesis by simp
  qed
qed

lemma updateBalances_other:
  assumes "e \<in> set (employees d)" and "employee_id e \<noteq> i"
  shows "e \<in> set (employees (updateBalances b i d))"
proof -
  have "(if employee_id e = i then setBalances b e else e) \<in>
          (\<lambda>x. if employee_id x = i then setBalances b x else x) ` set (employees d)"
    using assms(1) by (rule imageI)
  with assms(2) show ?thesis unfolding employees_updateBalances set_map by simp
qed

lemma normalizeRows_inv:
  assumes "\<forall>r \<in> set rows. employee_id r \<in> employee_id ` set (employees d)"
  shows "\<exists>d'. normalizeRows rows d = (Inr (), d') \<and>
           map employee_id (employees d') = map employee_id (employees d) \<and>
           (\<forall>e' \<in> set (employees d').
               (employee_id e' \<in> employee_id ` set rows \<and> withinCaps e') \<or>
               (employee_id e' \<notin> employee_id ` set rows \<and> e' \<in> set (employees d))) \<and>
           (\<forall>e \<in> set (employees d).
               employee_id e \<notin> employee_id ` set rows \<longrightarrow> e \<in> set (employees d'))"
  using assms
proof (induction rows arbitrary: d)
  case Nil
  show ?case by simp
next
  case (Cons r rs)
  from Cons.prems obtain e where e: "e \<in> set (employees d)" and er: "employee_id e = employee_id r"
    by auto
  from normalize_present[OF e] obtain b where
    run: "normalizeEmployeeBalances no_faults (employee_id r) d =
            (Inr b, updateBalances b (employee_id r) d)"
    and caps: "0 \<le> cl b \<and> cl b \<le> 30 \<and> 0 \<le> rh b \<and> rh b \<le> 15 \<and> 0 \<le> el b \<and> el b \<le> 18"
    unfolding er by blast
  define d1 where "d1 = updateBalances b (employee_id r) d"
  have ids1: "map employee_id (employees d1) = map employee_id (employees d)"
    unfolding d1_def by (rule updateBalances_ids)
  then have "set (map employee_id (employees d1)) = set (map employee_id (employees d))"
    by simp
  then have img: "employee_id ` set (employees d1) = employee_id ` set (employees d)"
    by simp
  have "\<forall>r' \<in> set rs. employee_id r' \<in> employee_id ` set (employees d1)"
    unfolding img using Cons.prems by simp
  from Cons.IH[OF this] obtain d' where
    rest: "normalizeRows rs d1 = (Inr (), d')"
    and ids': "map employee_id (employees d') = map employee_id (employees d1)"
    and rows': "\<forall>e' \<in> set (employees d').
               (employee_id e' \<in> employee_id ` set rs \<and> withinCaps e') \<or>
               (employee_id e' \<notin> employee_id ` set rs \<and> e' \<in> set (employees d1))"
    and kept': "\<forall>e \<in> set (employees d1).
               employee_id e \<notin> employee_id ` set rs \<longrightarrow> e \<in> set (employees d')"
    by blast
  have all: "normalizeRows (r # rs) d = (Inr (), d')"
    by (simp add: run rest[unfolded d1_def])
  have rows: "\<forall>e' \<in> set (employees d').
               (employee_id e' \<in> employee_id ` set (r # rs) \<and> withinCaps e') \<or>
               (employee_id e' \<notin> employee_id ` set (r # rs) \<and> e' \<in> set (employees d))"
  proof
    fix e' assume e': "e' \<in> set (employees d')"
    with rows' consider
        (a) "employee_id e' \<in> employee_id ` set rs" "withinCaps e'"
      | (b) "employee_id e' \<notin> employee_id ` set rs" "e' \<in> set (employees d1)"
      by blast
    then show "(employee_id e' \<in> employee_id ` set (r # rs) \<and> withinCaps e') \<or>
               (employee_id e' \<notin> employee_id ` set (r # rs) \<and> e' \<in> set (employees d))"
    proof cases
      case a
      then show ?thesis by simp
    next
      case b
      from updateBalances_row[OF b(2)[unfolded d1_def] caps] b(1) show ?thesis by auto
    qed
  qed
  have kept: "\<forall>e \<in> set (employees d).
               employee_id e \<notin> employee_id ` set (r # rs) \<longrightarrow> e \<in> set (employees d')"
  proof (intro ballI impI)
    fix x assume x: "x \<in> set (employees d)" and nx: "employee_id x \<notin> employee_id ` set (r # rs)"
    from nx have "employee_id x \<noteq> employee_id r" and nrs: "employee_id x \<notin> employee_id ` set rs"
      by auto
    with x have "x \<in> set (employees d1)" unfolding d1_def by (intro updateBalances_other)
    with kept' nrs show "x \<in> set (employees d')" by blast
  qed
  from all ids' ids1 rows kept show ?case by simp
qed

text \<open>The sweep, with its two loops unfolded: the first pass normalizes the rows with a
  negative balance, the second the rows above a threshold in what the first pass left.\<close>

lemma checkDataIntegrity_passes:
  "\<exists>d1. normalizeRows (filter negativeBalance (employees d)) d = (Inr (), d1) \<and>
        (\<exists>d2. normalizeRows (filter highBalance (employees d1)) d1 = (Inr (), d2) \<and>
              checkDataIntegrity d = d2)"
proof -
  have "\<forall>r \<in> set (filter negativeBalance (employees d)). employee_id r \<in> employee_id ` set (employees d)"
    by simp
  from normalizeRows_inv[OF this] obtain d1 where
    p1: "normalizeRows (filter negativeBalance (employees d)) d = (Inr (), d1)" by blast
  have "\<forall>r \<in> set (filter highBalance (employees d1)). employee_id r \<in> employee_id ` set (employees d1)"
    by simp
  from normalizeRows_inv[OF this] obtain d2 where
    p2: "normalizeRows (filter highBalance (employees d1)) d1 = (Inr (), d2)" by blast
  have e1: "(if filter negativeBalance (employees d) \<noteq> []
             then normalizeRows (filter negativeBalance (employees d)) d else (Inr (), d)) = (Inr (), d1)"
    using p1 by (cases "filter negativeBalance (employees d)") simp_all
  have e2: "(if filter highBalance (employees d1) \<noteq> []
             then normalizeRows (filter highBalance (employees d1)) d1 else (Inr (), d1)) = (Inr (), d2)"
    using p2 by (cases "filter highBalance (employees d1)") simp_all
  have "checkDataIntegrity d = d2"
    unfolding checkDataIntegrity_def Let_def e1 by (simp add: e2)
  with p1 p2 show ?thesis by blast
qed

lemma checkDataIntegrity_fixed:
  assumes "\<forall>e \<in> set (employees d). withinThresholds e"
  shows "checkDataIntegrity d = d"
proof -
  from assms have "filter negativeBalance (employees d) = []" "filter highBalance (employees d) = []"
    by (simp_all add: filter_empty_conv withinThresholds_iff)
  then show ?thesis by (simp add: checkDataIntegrity_def)
qed

text \<open>
  What one run of the sweep keeps, whether or not identifiers are unique: the rows and
  their identifiers; every employee that has a negative balance, a CL balance above 30,
  an RH balance above 15 or an EL balance above 30 has its balances within 0 to 30, 0 to
  15 and 0 to 18 afterwards; every row is afterwards within the thresholds of the two
  scans, and is a row within the caps or a row as it was stored; a second run changes
  nothing.
\<close>

lemma checkDataIntegrity_invariants:
  "map employee_id (employees (checkDataIntegrity d)) = map employee_id (employees d) \<and>
   (\<forall>e \<in> set (employees d). negativeBalance e \<or> highBalance e \<longrightarrow>
      (\<forall>e' \<in> set (employees (checkDataIntegrity d)).
          employee_id e' = employee_id e \<longrightarrow> withinCaps e')) \<and>
   (\<forall>e' \<in> set (employees (checkDataIntegrity d)).
      withinThresholds e' \<and> (withinCaps e' \<or> e' \<in> set (employees d))) \<and>
   checkDataIntegrity (checkDataIntegrity d) = checkDataIntegrity d"
proof -
  define neg where "neg = filter negativeBalance (employees d)"
  have "\<forall>r \<in> set neg. employee_id r \<in> employee_id ` set (employees d)"
    by (simp add: neg_def)
  from normalizeRows_inv[OF this] obtain d1 where
    p1: "normalizeRows neg d = (Inr (), d1)"
    and ids1: "map employee_id (employees d1) = map employee_id (employees d)"
    and rows1: "\<forall>e' \<in> set (employees d1).
               (employee_id e' \<in> employee_id ` set neg \<and> withinCaps e') \<or>
               (employee_id e' \<notin> employee_id ` set neg \<and> e' \<in> set (employees d))"
    and kept1: "\<forall>e \<in> set (employees d).
               employee_id e \<notin> employee_id ` set neg \<longrightarrow> e \<in> set (employees d1)"
    by blast
  define high where "high = filter highBalance (employees d1)"
  have "\<forall>r \<in> set high. employee_id r \<in> employee_id ` set (employees d1)"
    by (simp add: high_def)
  from normalizeRows_inv[OF this] obtain d2 where
    p2: "normalizeRows high d1 = (Inr (), d2)"
    and ids2: "map employee_id (employees d2) = map employee_id (employees d1)"
    and rows2: "\<forall>e' \<in> set (employees d2).
               (employee_id e' \<in> employee_id ` set high \<and> withinCaps e') \<or>
               (employee_id e' \<notin> employee_id ` set high \<and> e' \<in> set (employees d1))"
    and kept2: "\<forall>e \<in> set (employees d1).
               employee_id e \<notin> employee_id ` set high \<longrightarrow> e \<in> set (employees d2)"
    by blast
  from checkDataIntegrity_passes[of d] p1 p2 have sweep: "checkDataIntegrity d = d2"
    unfolding neg_def high_def by auto
  have negmem: "\<And>x. x \<in> set (employees d) \<Longrightarrow> negativeBalance x \<Longrightarrow>
                  employee_id x \<in> employee_id ` set neg"
    by (simp add: neg_def)
  have highmem: "\<And>x. x \<in> set (employees d1) \<Longrightarrow> highBalance x \<Longrightarrow>
                  employee_id x \<in> employee_id ` set high"
    by (simp add: high_def)
  have notneg1: "\<not> negativeBalance x" if x: "x \<in> set (employees d1)" for x
  proof (cases "employee_id x \<in> employee_id ` set neg")
    case True
    with rows1 x have "withinCaps x" by blast
    then show ?thesis using withinCaps_thresholds withinThresholds_iff by blast
  next
    case False
    with rows1 x have "x \<in> set (employees d)" by blast
    with False negmem show ?thesis by blast
  qed
  have thr2: "withinThresholds x \<and> (withinCaps x \<or> x \<in> set (employees d))"
    if x: "x \<in> set (employees d2)" for x
  proof (cases "employee_id x \<in> employee_id ` set high")
    case True
    with rows2 x have "withinCaps x" by blast
    then show ?thesis using withinCaps_thresholds by blast
  next
    case False
    with rows2 x have x1: "x \<in> set (employees d1)" by blast
    with False highmem have "\<not> highBalance x" by blast
    with notneg1[OF x1] have t: "withinThresholds x" by (simp add: withinThresholds_iff)
    from rows1 x1 have "withinCaps x \<or> x \<in> set (employees d)" by blast
    with t show ?thesis by simp
  qed
  have caps1: "withinCaps x"
    if x: "x \<in> set (employees d1)" and i: "employee_id x \<in> employee_id ` set neg" for x
    using rows1 x i by blast
  have caps2: "withinCaps x"
    if x: "x \<in> set (employees d2)"
      and c: "employee_id x \<in> employee_id ` set neg \<or> employee_id x \<in> employee_id ` set high" for x
  proof (cases "employee_id x \<in> employee_id ` set high")
    case True
    with rows2 x show ?thesis by blast
  next
    case False
    with rows2 x have "x \<in> set (employees d1)" by blast
    moreover from c False have "employee_id x \<in> employee_id ` set neg" by simp
    ultimately show ?thesis by (rule caps1)
  qed
  have repaired: "\<forall>e \<in> set (employees d). negativeBalance e \<or> highBalance e \<longrightarrow>
      (\<forall>e' \<in> set (employees d2). employee_id e' = employee_id e \<longrightarrow> withinCaps e')"
  proof (intro ballI impI)
    fix e e' assume e: "e \<in> set (employees d)" and flagged: "negativeBalance e \<or> highBalance e"
      and e': "e' \<in> set (employees d2)" and same: "employee_id e' = employee_id e"
    have "employee_id e \<in> employee_id ` set neg \<or> employee_id e \<in> employee_id ` set high"
    proof (cases "employee_id e \<in> employee_id ` set neg")
      case True
      then show ?thesis by simp
    next
      case False
      with negmem[OF e] have "\<not> negativeBalance e" by blast
      with flagged have h: "highBalance e" by simp
      from kept1 e False have "e \<in> set (employees d1)" by blast
      from highmem[OF this h] show ?thesis by simp
    qed
    with caps2[OF e'] same show "withinCaps e'" by simp
  qed
  have "\<forall>x \<in> set (employees d2). withinThresholds x" using thr2 by blast
  then have again: "checkDataIntegrity d2 = d2" by (rule checkDataIntegrity_fixed)
  from ids1 ids2 repaired thr2 again show ?thesis unfolding sweep by simp
qed

lemma clamped_simps [simp]:
  "employee_id (clamped e) = employee_id e"
  "cl_balance (clamped e) = Some (min 30 (normalizeLeaveBalance (column (cl_balance e))))"
  "rh_balance (clamped e) = Some (min 15 (normalizeLeaveBalance (column (rh_balance e))))"
  "el_balance (clamped e) = Some (min 18 (normalizeLeaveBalance (column (el_balance e))))"
  by (simp_all add: clamped_def)

lemma withinCaps_clamped: "withinCaps (clamped e)"
  by (simp add: withinCaps_def inRange_def normalizeLeaveBalance_nonneg)

lemma clamped_idem: "clamped (clamped e) = clamped e"
proof -
  have "\<And>c v. 0 \<le> c \<Longrightarrow> min c (normalizeLeaveBalance (column (Some (min c (normalizeLeaveBalance v))))) =
          min c (normalizeLeaveBalance v)"
    using normalizeLeaveBalance_nonneg by (simp add: normalizeLeaveBalance_column)
  then show ?thesis by (simp add: clamped_def)
qed

lemma setBalances_clamped:
  "setBalances \<lparr>cl = min 30 (normalizeLeaveBalance (column (cl_balance e))),
                 rh = min 15 (normalizeLeaveBalance (column (rh_balance e))),
                 el = min 18 (normalizeLeaveBalance (column (el_balance e)))\<rparr> e = clamped e"
  by (simp add: setBalances_def clamped_def)

lemma distinct_key_eq:
  assumes "distinct (map f xs)" and "x \<in> set xs" and "y \<in> set xs" and "f x = f y"
  shows "x = y"
proof -
  from assms(1) have "inj_on f (set xs)" by (simp add: distinct_map)
  from inj_onD[OF this assms(4) assms(2) assms(3)] show ?thesis .
qed

lemma normalize_unique:
  assumes keys: "distinct (map employee_id (employees d))" and e: "e \<in> set (employees d)"
  shows "\<exists>b. normalizeEmployeeBalances no_faults (employee_id e) d =
           (Inr b, d\<lparr>employees := map (\<lambda>x. if employee_id x = employee_id e then clamped x else x)
                                      (employees d)\<rparr>)"
proof -
  have one: "filter (\<lambda>x. employee_id x = employee_id e) (employees d) = [e]"
    using keys e by (rule filter_key_single)
  define b where "b = \<lparr>cl = min 30 (normalizeLeaveBalance (column (cl_balance e))),
                 rh = min 15 (normalizeLeaveBalance (column (rh_balance e))),
                 el = min 18 (normalizeLeaveBalance (column (el_balance e)))\<rparr>"
  have run: "normalizeEmployeeBalances no_faults (employee_id e) d =
               (Inr b, updateBalances b (employee_id e) d)"
    unfolding normalizeEmployeeBalances_unfold one by (simp add: no_faults_def b_def)
  have "map (\<lambda>x. if employee_id x = employee_id e then setBalances b x else x) (employees d) =
        map (\<lambda>x. if employee_id x = employee_id e then clamped x else x) (employees d)"
  proof (rule map_cong[OF refl])
    fix x assume x: "x \<in> set (employees d)"
    show "(if employee_id x = employee_id e then setBalances b x else x) =
          (if employee_id x = employee_id e then clamped x else x)"
    proof (cases "employee_id x = employee_id e")
      case True
      from distinct_key_eq[OF keys x e True] have "x = e" .
      then show ?thesis by (simp add: b_def setBalances_clamped)
    next
      case False
      then show ?thesis by simp
    qed
  qed
  then have "updateBalances b (employee_id e) d =
        d\<lparr>employees := map (\<lambda>x. if employee_id x = employee_id e then clamped x else x) (employees d)\<rparr>"
    by (simp add: updateBalances_def)
  with run show ?thesis by auto
qed

lemma normalizeRows_exact:
  assumes "distinct (map employee_id (employees d))"
    and "\<forall>r \<in> set rows. employee_id r \<in> employee_id ` set (employees d)"
  shows "normalizeRows rows d =
           (Inr (), d\<lparr>employees := map (\<lambda>x. if employee_id x \<in> employee_id ` set rows
                                            then clamped x else x) (employees d)\<rparr>)"
  using assms
proof (induction rows arbitrary: d)
  case Nil
  show ?case by simp
next
  case (Cons r rs)
  from Cons.prems(2) obtain e where e: "e \<in> set (employees d)" and er: "employee_id e = employee_id r"
    by auto
  define g where "g = (\<lambda>x. if employee_id x = employee_id r then clamped x else x)"
  define d1 where "d1 = d\<lparr>employees := map g (employees d)\<rparr>"
  from normalize_unique[OF Cons.prems(1) e] obtain b where
    run: "normalizeEmployeeBalances no_faults (employee_id r) d = (Inr b, d1)"
    unfolding er d1_def g_def by blast
  have gid: "\<And>x. employee_id (g x) = employee_id x" by (simp add: g_def)
  have emps1: "employees d1 = map g (employees d)" by (simp add: d1_def)
  have ids1: "map employee_id (employees d1) = map employee_id (employees d)"
    unfolding emps1 by (rule map_key_same) (rule gid)
  then have keys1: "distinct (map employee_id (employees d1))"
    using Cons.prems(1) by simp
  from ids1 have "set (map employee_id (employees d1)) = set (map employee_id (employees d))"
    by simp
  then have img: "employee_id ` set (employees d1) = employee_id ` set (employees d)"
    by simp
  have present1: "\<forall>r' \<in> set rs. employee_id r' \<in> employee_id ` set (employees d1)"
    unfolding img using Cons.prems(2) by simp
  have rest: "normalizeRows rs d1 =
           (Inr (), d1\<lparr>employees := map (\<lambda>x. if employee_id x \<in> employee_id ` set rs
                                            then clamped x else x) (employees d1)\<rparr>)"
    using keys1 present1 by (rule Cons.IH)
  have comp: "map (\<lambda>x. if employee_id x \<in> employee_id ` set rs then clamped x else x) (map g (employees d)) =
        map (\<lambda>x. if employee_id x \<in> employee_id ` set (r # rs) then clamped x else x) (employees d)"
  proof (simp only: map_map, rule map_cong[OF refl])
    fix x
    show "((\<lambda>x. if employee_id x \<in> employee_id ` set rs then clamped x else x) \<circ> g) x =
          (if employee_id x \<in> employee_id ` set (r # rs) then clamped x else x)"
      by (cases "employee_id x = employee_id r"; cases "employee_id x \<in> employee_id ` set rs")
         (simp_all add: g_def clamped_idem)
  qed
  have "normalizeRows (r # rs) d = normalizeRows rs d1"
    by (simp add: run)
  also have "\<dots> = (Inr (), d\<lparr>employees := map (\<lambda>x. if employee_id x \<in> employee_id ` set (r # rs)
                                            then clamped x else x) (employees d)\<rparr>)"
    unfolding rest using comp by (simp add: d1_def)
  finally show ?case .
qed

lemma flagged_ids:
  assumes keys: "distinct (map employee_id (employees d))" and x: "x \<in> set (employees d)"
  shows "(employee_id x \<in> employee_id ` set (filter P (employees d))) = P x"
proof
  assume "employee_id x \<in> employee_id ` set (filter P (employees d))"
  then obtain y where y: "y \<in> set (employees d)" "P y" and same: "employee_id x = employee_id y"
    by auto
  from distinct_key_eq[OF keys x y(1) same] y(2) show "P x" by simp
next
  assume "P x"
  with x have "x \<in> set (filter P (employees d))" by simp
  then show "employee_id x \<in> employee_id ` set (filter P (employees d))" by (rule imageI)
qed

lemma checkDataIntegrity_exact:
  assumes keys: "distinct (map employee_id (employees d))"
  shows "checkDataIntegrity d =
           d\<lparr>employees := map (\<lambda>e. if negativeBalance e \<or> highBalance e then clamped e else e)
                                (employees d)\<rparr>"
proof -
  define n where "n = (\<lambda>e. if negativeBalance e then clamped e else e)"
  define h where "h = (\<lambda>e. if highBalance e then clamped e else e)"
  define d1 where "d1 = d\<lparr>employees := map n (employees d)\<rparr>"
  have present: "\<forall>r \<in> set (filter negativeBalance (employees d)).
                   employee_id r \<in> employee_id ` set (employees d)"
    by simp
  have "map (\<lambda>x. if employee_id x \<in> employee_id ` set (filter negativeBalance (employees d))
                  then clamped x else x) (employees d) = map n (employees d)"
  proof (rule map_cong[OF refl])
    fix x assume "x \<in> set (employees d)"
    from flagged_ids[OF keys this, of negativeBalance]
    show "(if employee_id x \<in> employee_id ` set (filter negativeBalance (employees d))
           then clamped x else x) = n x"
      by (simp only: n_def)
  qed
  with normalizeRows_exact[OF keys present]
  have p1: "normalizeRows (filter negativeBalance (employees d)) d = (Inr (), d1)"
    by (simp add: d1_def)
  have nid: "\<And>x. employee_id (n x) = employee_id x" by (simp add: n_def)
  have emps1: "employees d1 = map n (employees d)" by (simp add: d1_def)
  have "map employee_id (employees d1) = map employee_id (employees d)"
    unfolding emps1 by (rule map_key_same) (rule nid)
  with keys have keys1: "distinct (map employee_id (employees d1))" by simp
  have present1: "\<forall>r \<in> set (filter highBalance (employees d1)).
                   employee_id r \<in> employee_id ` set (employees d1)"
    by simp
  have "map (\<lambda>x. if employee_id x \<in> employee_id ` set (filter highBalance (employees d1))
                  then clamped x else x) (employees d1) = map h (employees d1)"
  proof (rule map_cong[OF refl])
    fix x assume "x \<in> set (employees d1)"
    from flagged_ids[OF keys1 this, of highBalance]
    show "(if employee_id x \<in> employee_id ` set (filter highBalance (employees d1))
           then clamped x else x) = h x"
      by (simp only: h_def)
  qed
  with normalizeRows_exact[OF keys1 present1]
  have p2: "normalizeRows (filter highBalance (employees d1)) d1 =
              (Inr (), d1\<lparr>employees := map h (employees d1)\<rparr>)"
    by simp
  have hn: "h (n e) = (if negativeBalance e \<or> highBalance e then clamped e else e)" for e
  proof (cases "negativeBalance e")
    case True
    have "\<not> highBalance (clamped e)"
      using withinCaps_thresholds[OF withinCaps_clamped] by (simp add: withinThresholds_iff)
    with True show ?thesis by (simp add: h_def n_def)
  next
    case False
    then show ?thesis by (simp add: h_def n_def)
  qed
  have comp: "map h (map n (employees d)) =
        map (\<lambda>e. if negativeBalance e \<or> highBalance e then clamped e else e) (employees d)"
    by (simp add: hn)
  from checkDataIntegrity_passes[of d] p1 p2
  have "checkDataIntegrity d = d1\<lparr>employees := map h (employees d1)\<rparr>"
    by auto
  then show ?thesis unfolding emps1 comp by (simp add: d1_def)
qed

text \<open>
  C6. The claim: one run of the sweep normalizes every employee with a balance that is
  negative or above its cap (30, 15, 18), so that afterwards all balances lie within
  the caps; an EL balance of 25 is repaired. The code: the second scan selects
  \<^verbatim>\<open>cl_balance > 30 OR rh_balance > 15 OR el_balance > 30\<close>, so an employee with
  balances 10, 5 and 25 is not selected and keeps the EL balance 25; and neither scan
  selects a row for a balance that is NULL, so that balance stays NULL.
\<close>

theorem sweep_keeps_el_25_counterexample:
  "employees (checkDataIntegrity exampleDb) = [exampleEmployee] \<and>
   el_balance exampleEmployee = Some 25 \<and> \<not> withinCaps exampleEmployee \<and>
   employees (checkDataIntegrity (exampleDb\<lparr>employees := [exampleEmployee\<lparr>rh_balance := None\<rparr>]\<rparr>)) =
     [exampleEmployee\<lparr>rh_balance := None\<rparr>]"
  by code_simp

text \<open>
  C6, as the code has it. With employee identifiers unique, one run of the sweep
  changes the employees table and nothing else: a row that has a negative balance, a CL
  balance above 30, an RH balance above 15 or an EL balance above 30 (that is, a row
  not within the thresholds) gets each balance replaced by
  \<open>min(cap, normalizeLeaveBalance(stored))\<close> with the caps 30, 15 and 18, which puts it
  within 0 to 30, 0 to 15 and 0 to 18; every other row stays as it is stored. After the
  run every balance is NULL or within 0 to 30 (CL), 0 to 15 (RH) and 0 to 30 (EL), and a
  second run changes nothing.
\<close>

theorem sweep_repairs_flagged:
  assumes "distinct (map employee_id (employees d))"
  shows "checkDataIntegrity d =
           d\<lparr>employees := map (\<lambda>e. if negativeBalance e \<or> highBalance e then clamped e else e)
                                (employees d)\<rparr> \<and>
         (\<forall>e. (negativeBalance e \<or> highBalance e) = (\<not> withinThresholds e)) \<and>
         (\<forall>e. withinCaps (clamped e)) \<and>
         (\<forall>e' \<in> set (employees (checkDataIntegrity d)). withinThresholds e') \<and>
         checkDataIntegrity (checkDataIntegrity d) = checkDataIntegrity d"
proof -
  have flagged: "\<forall>e. (negativeBalance e \<or> highBalance e) = (\<not> withinThresholds e)"
    by (simp add: withinThresholds_iff)
  have caps: "\<forall>e. withinCaps (clamped e)"
    by (simp add: withinCaps_clamped)
  from checkDataIntegrity_invariants[of d]
  have after: "\<forall>e' \<in> set (employees (checkDataIntegrity d)). withinThresholds e'"
    and again: "checkDataIntegrity (checkDataIntegrity d) = checkDataIntegrity d"
    by simp_all
  from checkDataIntegrity_exact[OF assms] flagged caps after again show ?thesis by blast
qed

theorem sweep_repairs_flagged_witness:
  "distinct (map employee_id (employees exampleSweepDb)) \<and>
   checkDataIntegrity exampleSweepDb =
     exampleSweepDb\<lparr>employees :=
        [exampleEmployee,
         \<lparr>employee_id = ''EMP002'', full_name = ''Bina Das'',
          cl_balance = Some 0, rh_balance = Some 5, el_balance = Some 10\<rparr>,
         \<lparr>employee_id = ''EMP003'', full_name = ''Chetan Lal'',
          cl_balance = Some 12, rh_balance = Some 5, el_balance = Some 18\<rparr>]\<rparr> \<and>
   checkDataIntegrity
     (exampleSweepDb\<lparr>employees :=
        [exampleEmployee,
         \<lparr>employee_id = ''EMP002'', full_name = ''Bina Das'',
          cl_balance = Some 0, rh_balance = Some 5, el_balance = Some 10\<rparr>,
         \<lparr>employee_id = ''EMP003'', full_name = ''Chetan Lal'',
          cl_balance = Some 12, rh_balance = Some 5, el_balance = Some 18\<rparr>]\<rparr>) =
     exampleSweepDb\<lparr>employees :=
        [exampleEmployee,
         \<lparr>employee_id = ''EMP002'', full_name = ''Bina Das'',
          cl_balance = Some 0, rh_balance = Some 5, el_balance = Some 10\<rparr>,
         \<lparr>employee_id = ''EMP003'', full_name = ''Chetan Lal'',
          cl_balance = Some 12, rh_balance = Some 5, el_balance = Some 18\<rparr>]\<rparr> \<and>
   el_balance exampleEmployee = Some 25"
proof -
  have keys: "distinct (map employee_id (employees exampleSweepDb))"
    by (simp add: exampleSweepDb_def exampleEmployee_def)
  have R: "checkDataIntegrity exampleSweepDb =
     exampleSweepDb\<lparr>employees :=
        [exampleEmployee,
         \<lparr>employee_id = ''EMP002'', full_name = ''Bina Das'',
          cl_balance = Some 0, rh_balance = Some 5, el_balance = Some 10\<rparr>,
         \<lparr>employee_id = ''EMP003'', full_name = ''Chetan Lal'',
          cl_balance = Some 12, rh_balance = Some 5, el_balance = Some 18\<rparr>]\<rparr>"
    by code_simp
  from sweep_repairs_flagged[OF keys]
  have again: "checkDataIntegrity (checkDataIntegrity exampleSweepDb) =
                  checkDataIntegrity exampleSweepDb"
    by blast
  have R2: "checkDataIntegrity
     (exampleSweepDb\<lparr>employees :=
        [exampleEmployee,
         \<lparr>employee_id = ''EMP002'', full_name = ''Bina Das'',
          cl_balance = Some 0, rh_balance = Some 5, el_balance = Some 10\<rparr>,
         \<lparr>employee_id = ''EMP003'', full_name = ''Chetan Lal'',
          cl_balance = Some 12, rh_balance = Some 5, el_balance = Some 18\<rparr>]\<rparr>) =
     exampleSweepDb\<lparr>employees :=
        [exampleEmployee,
         \<lparr>employee_id = ''EMP002'', full_name = ''Bina Das'',
          cl_balance = Some 0, rh_balance = Some 5, el_balance = Some 10\<rparr>,
         \<lparr>employee_id = ''EMP003'', full_name = ''Chetan Lal'',
          cl_balance = Some 12, rh_balance = Some 5, el_balance = Some 18\<rparr>]\<rparr>"
    using again by (simp only: R)
  have el25: "el_balance exampleEmployee = Some 25"
    by (simp add: exampleEmployee_def)
  show ?thesis by (intro conjI keys R R2 el25)
qed

end
